theory Spec2Isabelle
  imports Complex_Main "HOL-Library.AList" "HOL-Library.Sublist"
begin

section \<open>JavaScript values\<close>

text \<open>
  The values the plugin handles: what \<^verbatim>\<open>JSON.parse\<close> returns (null, booleans, numbers,
  strings, arrays, objects), \<^verbatim>\<open>undefined\<close> (a missing property), and the members every plain
  object inherits from \<^verbatim>\<open>Object.prototype\<close>. A number is held by its value; the plugin only
  tests numbers for truthiness. An object lists its own properties in insertion order, each
  key once. Strings are sequences of bytes (UTF-8); every character the plugin looks for is
  an ASCII character, which is one byte and part of no other character.
\<close>

datatype jsval =
    JUndefined
  | JNull
  | JBool bool
  | JNum rat
  | JStr string
  | JArr "jsval list"
  | JObj "(string \<times> jsval) list"
  | JBuiltin string

text \<open>Truthiness: \<^verbatim>\<open>undefined\<close>, \<^verbatim>\<open>null\<close>, \<^verbatim>\<open>false\<close>, zero and the empty string are falsy.\<close>

fun truthy :: "jsval \<Rightarrow> bool" where
  "truthy JUndefined = False"
| "truthy JNull = False"
| "truthy (JBool b) = b"
| "truthy (JNum q) = (q \<noteq> 0)"
| "truthy (JStr s) = (s \<noteq> [])"
| "truthy (JArr xs) = True"
| "truthy (JObj kvs) = True"
| "truthy (JBuiltin n) = True"

fun typeof :: "jsval \<Rightarrow> string" where
  "typeof JUndefined = ''undefined''"
| "typeof JNull = ''object''"
| "typeof (JBool b) = ''boolean''"
| "typeof (JNum q) = ''number''"
| "typeof (JStr s) = ''string''"
| "typeof (JArr xs) = ''object''"
| "typeof (JObj kvs) = ''object''"
| "typeof (JBuiltin n) = (if n = ''__proto__'' then ''object'' else ''function'')"

text \<open>
  The property names of \<^verbatim>\<open>Object.prototype\<close>. Reading one of them from a plain object that
  has no own property of that name yields the inherited member, which is truthy and equal
  to no string.
\<close>

definition object_prototype_names :: "string list" where
  "object_prototype_names =
     [''constructor'', ''__defineGetter__'', ''__defineSetter__'', ''hasOwnProperty'',
      ''__lookupGetter__'', ''__lookupSetter__'', ''isPrototypeOf'', ''propertyIsEnumerable'',
      ''toString'', ''valueOf'', ''__proto__'', ''toLocaleString'']"

text \<open>\<^verbatim>\<open>obj[k]\<close> on a plain object.\<close>

definition obj_get :: "(string \<times> jsval) list \<Rightarrow> string \<Rightarrow> jsval" where
  "obj_get kvs k =
     (case map_of kvs k of
        Some v \<Rightarrow> v
      | None \<Rightarrow> if k \<in> set object_prototype_names then JBuiltin k else JUndefined)"

text \<open>
  \<^verbatim>\<open>obj[k] = v\<close> on a plain object, for a key that is not \<^verbatim>\<open>__proto__\<close>: an existing
  property keeps its place, a new one goes last.
\<close>

definition obj_set :: "(string \<times> jsval) list \<Rightarrow> string \<Rightarrow> jsval \<Rightarrow> (string \<times> jsval) list" where
  "obj_set kvs k v = AList.update k v kvs"

text \<open>Decimal rendering of an array index.\<close>

definition digit_char :: "nat \<Rightarrow> char" where
  "digit_char n = char_of (48 + n)"

function show_nat :: "nat \<Rightarrow> string" where
  "show_nat n = (if n < 10 then [digit_char n] else show_nat (n div 10) @ [digit_char (n mod 10)])"
  by pat_completeness auto

termination
  by (relation "measure (\<lambda>n. n)") auto

text \<open>
  \<^verbatim>\<open>Object.entries(v)\<close>: a type error on \<^verbatim>\<open>undefined\<close> and \<^verbatim>\<open>null\<close>, the own
  properties of an object, the indexed elements of an array, the indexed characters of a
  string, nothing for the other primitives. (JavaScript lists integer-like keys of an object
  first; the plugin only folds the entries into a set.)
\<close>

datatype error =
    Invalid_locale string
  | Syntax_error string
  | Type_error
  | Locale_mismatch string jsval string
  | Invalid_fallback string jsval
  | Circular_fallback string string

fun object_entries :: "jsval \<Rightarrow> error + (string \<times> jsval) list" where
  "object_entries JUndefined = Inl Type_error"
| "object_entries JNull = Inl Type_error"
| "object_entries (JObj kvs) = Inr kvs"
| "object_entries (JArr xs) = Inr (zip (map show_nat [0..<length xs]) xs)"
| "object_entries (JStr s) = Inr (zip (map show_nat [0..<length s]) (map (\<lambda>c. JStr [c]) s))"
| "object_entries (JBool b) = Inr []"
| "object_entries (JNum q) = Inr []"
| "object_entries (JBuiltin n) = Inr []"

section \<open>Regular expressions\<close>

text \<open>
  The fragment of JavaScript regular expressions the plugin uses, matched by backtracking:
  each step returns the states reachable from a state, in the order JavaScript tries them.
  A state is the position in the input, the rest of the input, and the capture groups
  that took part in the match.
\<close>

datatype rx =
    Word string
  | Range char char
  | One_of "char list"
  | Cat rx rx
  | Alt rx rx
  | Opt rx
  | Grp nat rx
  | Bol
  | Eol

type_synonym rx_state = "nat \<times> string \<times> (nat \<times> string) list"

definition char_code :: "char \<Rightarrow> nat" where
  "char_code c = of_char c"

definition in_range :: "char \<Rightarrow> char \<Rightarrow> char \<Rightarrow> bool" where
  "in_range lo hi c = (char_code lo \<le> char_code c \<and> char_code c \<le> char_code hi)"

fun rx_step :: "rx \<Rightarrow> rx_state \<Rightarrow> rx_state list" where
  "rx_step (Word w) (p, s, g) =
     (if prefix w s then [(p + length w, drop (length w) s, g)] else [])"
| "rx_step (Range lo hi) (p, s, g) =
     (case s of [] \<Rightarrow> [] | c # cs \<Rightarrow> if in_range lo hi c then [(Suc p, cs, g)] else [])"
| "rx_step (One_of cls) (p, s, g) =
     (case s of [] \<Rightarrow> [] | c # cs \<Rightarrow> if c \<in> set cls then [(Suc p, cs, g)] else [])"
| "rx_step (Cat r1 r2) st = concat (map (rx_step r2) (rx_step r1 st))"
| "rx_step (Alt r1 r2) st = rx_step r1 st @ rx_step r2 st"
| "rx_step (Opt r) st = rx_step r st @ [st]"
| "rx_step (Grp n r) (p, s, g) =
     map (\<lambda>(p', s', g'). (p', s', (n, take (p' - p) s) # g')) (rx_step r (p, s, g))"
| "rx_step Bol (p, s, g) = (if p = 0 then [(p, s, g)] else [])"
| "rx_step Eol (p, s, g) = (if s = [] then [(p, s, g)] else [])"

text \<open>
  \<^verbatim>\<open>regex.exec(input)\<close> without the global flag: the first start position with a match,
  and the groups of the first match found there (group 0 is the matched text).
\<close>

fun rx_search :: "rx \<Rightarrow> nat \<Rightarrow> string \<Rightarrow> (nat \<times> string) list option" where
  "rx_search r p s =
     (case rx_step r (p, s, []) of
        st # _ \<Rightarrow> Some ((0, take (fst st - p) s) # snd (snd st))
      | [] \<Rightarrow> (case s of [] \<Rightarrow> None | _ # cs \<Rightarrow> rx_search r (Suc p) cs))"

declare rx_search.simps [simp del]

definition rx_exec :: "rx \<Rightarrow> string \<Rightarrow> (nat \<times> string) list option" where
  "rx_exec r s = rx_search r 0 s"

definition rx_test :: "rx \<Rightarrow> string \<Rightarrow> bool" where
  "rx_test r s = (rx_exec r s \<noteq> None)"

text \<open>\<^verbatim>\<open>/^([a-z]{2})([_-]([A-Z]{2}))?$/\<close>\<close>

definition locale_rx :: rx where
  "locale_rx =
     Cat Bol
       (Cat (Grp 1 (Cat (Range CHR ''a'' CHR ''z'') (Range CHR ''a'' CHR ''z'')))
         (Cat (Opt (Grp 2 (Cat (One_of ''_-'')
                 (Grp 3 (Cat (Range CHR ''A'' CHR ''Z'') (Range CHR ''A'' CHR ''Z''))))))
           Eol))"

text \<open>\<^verbatim>\<open>/\.(cjs|js|mjs|ts|jsx|tsx)($|\?)/\<close>\<close>

definition source_ext_rx :: rx where
  "source_ext_rx =
     Cat (Word ''.'')
       (Cat (Grp 1 (Alt (Word ''cjs'') (Alt (Word ''js'') (Alt (Word ''mjs'')
               (Alt (Word ''ts'') (Alt (Word ''jsx'') (Word ''tsx'')))))))
         (Grp 2 (Alt Eol (Word ''?''))))"

section \<open>The build start hook\<close>

text \<open>
  The locales directory is a map from absolute paths to files. A file holds text that
  \<^verbatim>\<open>JSON.parse\<close> accepts, kept as the value it parses to, or text it rejects (a path that
  exists and cannot be read as a file makes line 70 throw in the same way).
  \<^verbatim>\<open>JSON.stringify\<close> followed by \<^verbatim>\<open>JSON.parse\<close> returns the value it was given, for the
  values the plugin writes (strings and objects of strings).
\<close>

datatype disk_file = Json jsval | Unparsable

type_synonym disk = "string \<rightharpoonup> disk_file"

text \<open>
  The variables \<^verbatim>\<open>buildStart\<close> fills: its local \<^verbatim>\<open>fallbacks\<close> and the plugin's
  \<^verbatim>\<open>localeNames\<close>, \<^verbatim>\<open>translations\<close> (here \<open>translation_records\<close>) and \<^verbatim>\<open>pluralKeys\<close>.
\<close>

record build_vars =
  fallbacks :: "(string \<times> jsval) list"
  localeNames :: "(string \<times> jsval) list"
  translation_records :: "(string \<times> jsval) list"
  pluralKeys :: "string set"

text \<open>
  \<^verbatim>\<open>resolve(localesDirAbs, `${locale}.json`)\<close> for an absolute, normalised directory other
  than the root and a file name without separators.
\<close>

definition localeFile :: "string \<Rightarrow> string \<Rightarrow> string" where
  "localeFile localesDirAbs locale = localesDirAbs @ ''/'' @ locale @ ''.json''"

text \<open>A capture group of a match; in a template literal a group that is undefined prints as such.\<close>

definition rx_group :: "(nat \<times> string) list \<Rightarrow> nat \<Rightarrow> jsval" where
  "rx_group m n = (case map_of m n of Some s \<Rightarrow> JStr s | None \<Rightarrow> JUndefined)"

definition template :: "jsval \<Rightarrow> string" where
  "template v = (case v of JStr s \<Rightarrow> s | _ \<Rightarrow> ''undefined'')"

text \<open>\<^verbatim>\<open>match[3] ? `${match[1]} (${match[3]})` : locale\<close>\<close>

definition default_name :: "string \<Rightarrow> (nat \<times> string) list \<Rightarrow> string" where
  "default_name locale m =
     (if truthy (rx_group m 3)
      then template (rx_group m 1) @ '' ('' @ template (rx_group m 3) @ '')''
      else locale)"

text \<open>
  The walk over the fallbacks (lines 82 to 89):
  \<^verbatim>\<open>while ((follow = fallbacks[data.fallback])) { if (follow === locale) throw ... }\<close>.
  The loop may not return; then the result is \<open>None\<close>.
\<close>

partial_function (option) follow_fallbacks ::
  "(string \<times> jsval) list \<Rightarrow> string \<Rightarrow> string \<Rightarrow> string \<Rightarrow> (error + unit) option" where
  "follow_fallbacks fbs fallback locale file =
     (if truthy (obj_get fbs fallback)
      then (if obj_get fbs fallback = JStr locale
            then Some (Inl (Circular_fallback file fallback))
            else follow_fallbacks fbs fallback locale file)
      else Some (Inr ()))"

declare follow_fallbacks.simps [code]

text \<open>
  Lines 100 to 103: the name and the record are stored under the locale, and every key of
  the translations whose value is truthy and of type object is added to the plural keys.
\<close>

definition add_plural :: "string \<times> jsval \<Rightarrow> string set \<Rightarrow> string set" where
  "add_plural e pk = (if truthy (snd e) \<and> typeof (snd e) = ''object'' then insert (fst e) pk else pk)"

definition register_locale ::
  "string \<Rightarrow> (string \<times> jsval) list \<Rightarrow> build_vars \<Rightarrow> error + build_vars" where
  "register_locale locale data v =
     (case object_entries (obj_get data ''translations'') of
        Inl e \<Rightarrow> Inl e
      | Inr es \<Rightarrow>
          Inr (v\<lparr>localeNames := obj_set (localeNames v) locale (obj_get data ''name''),
                 translation_records := obj_set (translation_records v) locale (JObj data),
                 pluralKeys := fold add_plural es (pluralKeys v)\<rparr>))"

text \<open>
  Lines 71 to 91, for a file that parsed to an object: the locale field must be the
  requested locale, a falsy name is filled in, a truthy fallback must be one of the
  configured locales and is walked before it is recorded.
\<close>

definition check_record ::
  "string list \<Rightarrow> string \<Rightarrow> (nat \<times> string) list \<Rightarrow> string \<Rightarrow> (string \<times> jsval) list \<Rightarrow>
     build_vars \<Rightarrow> (error + build_vars) option" where
  "check_record locales locale m file kvs v =
     (if obj_get kvs ''locale'' \<noteq> JStr locale
      then Some (Inl (Locale_mismatch file (obj_get kvs ''locale'') locale))
      else
        (let data = (if \<not> truthy (obj_get kvs ''name'')
                     then obj_set kvs ''name'' (JStr (default_name locale m)) else kvs)
         in if truthy (obj_get data ''fallback'')
            then (case obj_get data ''fallback'' of
                    JStr fb \<Rightarrow>
                      if fb \<in> set locales
                      then (case follow_fallbacks (fallbacks v) fb locale file of
                              None \<Rightarrow> None
                            | Some (Inl e) \<Rightarrow> Some (Inl e)
                            | Some (Inr u) \<Rightarrow>
                                Some (register_locale locale data
                                        (v\<lparr>fallbacks := obj_set (fallbacks v) locale (JStr fb)\<rparr>)))
                      else Some (Inl (Invalid_fallback file (JStr fb)))
                  | other \<Rightarrow> Some (Inl (Invalid_fallback file other)))
            else Some (register_locale locale data v)))"

text \<open>
  Lines 69 to 91, for a file that exists. Reading a property of \<^verbatim>\<open>null\<close> (or of
  \<^verbatim>\<open>undefined\<close>, which no file parses to) is a type error;
  arrays, strings, numbers and booleans have no property \<^verbatim>\<open>locale\<close>, so the comparison
  with the requested locale fails for them.
\<close>

definition load_record ::
  "string list \<Rightarrow> string \<Rightarrow> (nat \<times> string) list \<Rightarrow> string \<Rightarrow> disk_file \<Rightarrow>
     build_vars \<Rightarrow> (error + build_vars) option" where
  "load_record locales locale m file f v =
     (case f of
        Unparsable \<Rightarrow> Some (Inl (Syntax_error file))
      | Json data \<Rightarrow>
          (case data of
             JUndefined \<Rightarrow> Some (Inl Type_error)
           | JNull \<Rightarrow> Some (Inl Type_error)
           | JObj kvs \<Rightarrow> check_record locales locale m file kvs v
           | other \<Rightarrow> Some (Inl (Locale_mismatch file JUndefined locale))))"

text \<open>Lines 93 to 97: the record written for a locale that has no file.\<close>

definition default_record :: "string \<Rightarrow> (nat \<times> string) list \<Rightarrow> (string \<times> jsval) list" where
  "default_record locale m =
     [(''locale'', JStr locale), (''name'', JStr (default_name locale m)),
      (''translations'', JObj [])]"

text \<open>
  One iteration of the loop over the locales (lines 61 to 104). The disk is returned with
  the outcome: what was written stays written when the hook throws.
\<close>

definition buildStart_locale ::
  "string \<Rightarrow> string list \<Rightarrow> string \<Rightarrow> disk \<Rightarrow> build_vars \<Rightarrow> (disk \<times> (error + build_vars)) option" where
  "buildStart_locale dir locales locale d v =
     (case rx_exec locale_rx locale of
        None \<Rightarrow> Some (d, Inl (Invalid_locale locale))
      | Some m \<Rightarrow>
          (case d (localeFile dir locale) of
             Some f \<Rightarrow> map_option (Pair d) (load_record locales locale m (localeFile dir locale) f v)
           | None \<Rightarrow>
               Some (d(localeFile dir locale \<mapsto> Json (JObj (default_record locale m))),
                     register_locale locale (default_record locale m) v)))"

fun for_locales ::
  "string \<Rightarrow> string list \<Rightarrow> string list \<Rightarrow> disk \<Rightarrow> build_vars \<Rightarrow> (disk \<times> (error + build_vars)) option" where
  "for_locales dir locales [] d v = Some (d, Inr v)"
| "for_locales dir locales (locale # rest) d v =
     (case buildStart_locale dir locales locale d v of
        None \<Rightarrow> None
      | Some (d', Inl e) \<Rightarrow> Some (d', Inl e)
      | Some (d', Inr v') \<Rightarrow> for_locales dir locales rest d' v')"

text \<open>
  \<^verbatim>\<open>buildStart\<close>: the directory is created if need be (no file changes), the fallbacks,
  translations and plural keys start empty, the locale names are the plugin's own object
  and keep what an earlier build stored.
\<close>

definition buildStart ::
  "string \<Rightarrow> string list \<Rightarrow> (string \<times> jsval) list \<Rightarrow> disk \<Rightarrow> (disk \<times> (error + build_vars)) option" where
  "buildStart dir locales names d =
     for_locales dir locales locales d
       \<lparr>fallbacks = [], localeNames = names, translation_records = [], pluralKeys = {}\<rparr>"

section \<open>The plugin, its mode flag and its virtual modules\<close>

text \<open>
  Lines 36 and 37: \<^verbatim>\<open>options.locales || ['en']\<close> (an array is truthy, also when empty) and
  \<^verbatim>\<open>options.defaultLocale || locales[0]\<close>.
\<close>

definition configured_locales :: "string list option \<Rightarrow> string list" where
  "configured_locales opt = (case opt of None \<Rightarrow> [''en''] | Some ls \<Rightarrow> ls)"

definition configured_default :: "string option \<Rightarrow> string list \<Rightarrow> jsval" where
  "configured_default opt locales =
     (if truthy (case opt of None \<Rightarrow> JUndefined | Some l \<Rightarrow> JStr l)
      then (case opt of None \<Rightarrow> JUndefined | Some l \<Rightarrow> JStr l)
      else (case locales of [] \<Rightarrow> JUndefined | l # ls \<Rightarrow> JStr l))"

text \<open>
  \<^verbatim>\<open>configResolved\<close> sets \<^verbatim>\<open>shouldInline = !!config.build.ssr || !config.isProduction\<close>;
  \<^verbatim>\<open>build.ssr\<close> is a boolean or a string.
\<close>

record resolved_config =
  build_ssr :: jsval
  isProduction :: bool

definition configResolved :: "resolved_config \<Rightarrow> bool" where
  "configResolved config = (truthy (build_ssr config) \<or> \<not> isProduction config)"

definition newline :: string where
  "newline = [CHR 0x0A]"

definition quote :: string where
  "quote = [CHR 0x27]"

text \<open>\<^verbatim>\<open>lines.join(sep)\<close>\<close>

fun join :: "string \<Rightarrow> string list \<Rightarrow> string" where
  "join sep [] = []"
| "join sep [x] = x"
| "join sep (x # y # ys) = x @ sep @ join sep (y # ys)"

definition locales_module_id :: string where
  "locales_module_id = CHR 0x00 # ''i18n-locales.js''"

definition data_module_id :: string where
  "data_module_id = CHR 0x00 # ''i18n-data.js''"

definition state_module_id :: string where
  "state_module_id = CHR 0x00 # ''i18n-state.js''"

text \<open>Lines 108 to 113: \<^verbatim>\<open>id.includes(...)\<close> is a search for a substring.\<close>

definition resolveId :: "string \<Rightarrow> string option" where
  "resolveId ident =
     (if sublist ''/i18n/__locales.'' ident then Some locales_module_id
      else if sublist ''/i18n/__data.'' ident then Some data_module_id
      else if sublist ''/i18n/__state.'' ident then Some state_module_id
      else None)"

definition locales_module_header :: string where
  "locales_module_header =
     newline @ ''/**'' @ newline @
     '' * This file was generated by vite-plugin-i18n.'' @ newline @
     '' *'' @ newline @
     '' * For server builds, it contains all translations. For client builds, it is'' @ newline @
     '' * empty, and translations need to be loaded dynamically.'' @ newline @
     '' */'' @ newline"

text \<open>\<^verbatim>\<open>`export {default as ${l}} from '${localesDirAbs}/${l}.json'`\<close>\<close>

definition export_line :: "string \<Rightarrow> string \<Rightarrow> string" where
  "export_line dir l =
     ''export {default as '' @ l @ ''} from '' @ quote @ dir @ ''/'' @ l @ ''.json'' @ quote"

text \<open>
  \<^verbatim>\<open>load\<close> (lines 116 to 175). The locales module is given by its text. The data module is a
  fixed text around the locales and the locale names, the state module a fixed text around
  the expression the default locale starts from (the placeholder, or the configured default
  as a string literal); they are given by these parts. For any other id \<^verbatim>\<open>load\<close> returns
  nothing.
\<close>

datatype default_expr = Placeholder | Stringified jsval

datatype virtual_module =
    Locales_module string
  | Data_module "string list" "(string \<times> jsval) list"
  | State_module default_expr

definition load ::
  "bool \<Rightarrow> string \<Rightarrow> string list \<Rightarrow> (string \<times> jsval) list \<Rightarrow> jsval \<Rightarrow> string \<Rightarrow>
     virtual_module option" where
  "load shouldInline dir locales names dflt ident =
     (if ident = locales_module_id
      then Some (Locales_module
                  (if shouldInline then []
                   else locales_module_header @ join newline (map (export_line dir) locales) @
                        newline))
      else if ident = data_module_id then Some (Data_module locales names)
      else if ident = state_module_id
      then Some (State_module (if shouldInline then Placeholder else Stringified dflt))
      else None)"

section \<open>The state module\<close>

text \<open>
  What the generated state module (lines 142 to 173) does when it runs. Its variables are
  \<^verbatim>\<open>defaultLocale\<close>, \<^verbatim>\<open>currentLocale\<close> and \<^verbatim>\<open>getLocale\<close>; \<^verbatim>\<open>localeNames\<close> is the
  object the data module exports. Locales are strings, as the module's type annotations
  say; a registered function is held by what it returns when called (a locale, or nothing).
\<close>

datatype getter = Initial_getter | Registered "string option"

record state_module =
  names :: "(string \<times> jsval) list"
  defaultLocale :: string
  currentLocale :: string
  getLocale_fn :: getter

text \<open>
  Lines 149 to 163: the module starts with both locales at the default and with the getter
  that returns the default locale.
\<close>

definition state_module_start :: "(string \<times> jsval) list \<Rightarrow> string \<Rightarrow> state_module" where
  "state_module_start ns dflt =
     \<lparr>names = ns, defaultLocale = dflt, currentLocale = dflt, getLocale_fn = Initial_getter\<rparr>"

datatype type_error = TypeError string

text \<open>\<^verbatim>\<open>if (!localeNames[l]) throw new TypeError(`unknown locale ${l}`)\<close>\<close>

definition checkLocale :: "(string \<times> jsval) list \<Rightarrow> string \<Rightarrow> type_error + unit" where
  "checkLocale ns l =
     (if \<not> truthy (obj_get ns l) then Inl (TypeError (''unknown locale '' @ l)) else Inr ())"

definition setDefaultLocale :: "string \<Rightarrow> state_module \<Rightarrow> type_error + state_module" where
  "setDefaultLocale l m =
     (case checkLocale (names m) l of
        Inl e \<Rightarrow> Inl e
      | Inr u \<Rightarrow> Inr (m\<lparr>defaultLocale := l\<rparr>))"

definition setLocaleGetter :: "string option \<Rightarrow> state_module \<Rightarrow> state_module" where
  "setLocaleGetter fn m = m\<lparr>getLocale_fn := Registered fn\<rparr>"

text \<open>\<^verbatim>\<open>fn() || defaultLocale\<close>: nothing and the empty string are falsy.\<close>

definition or_default :: "string option \<Rightarrow> string \<Rightarrow> string" where
  "or_default r dflt = (case r of None \<Rightarrow> dflt | Some l \<Rightarrow> if l = [] then dflt else l)"

definition getLocale :: "state_module \<Rightarrow> type_error + (string \<times> state_module)" where
  "getLocale m =
     (case getLocale_fn m of
        Initial_getter \<Rightarrow> Inr (defaultLocale m, m)
      | Registered r \<Rightarrow>
          (case checkLocale (names m) (or_default r (defaultLocale m)) of
             Inl e \<Rightarrow> Inl e
           | Inr u \<Rightarrow>
               Inr (or_default r (defaultLocale m),
                    m\<lparr>currentLocale := or_default r (defaultLocale m)\<rparr>)))"

section \<open>The transform hook\<close>

text \<open>
  Lines 177 to 183. The transform engine \<^verbatim>\<open>transformLocalize\<close> is not part of this file;
  the hook's answer records the call made to it.
\<close>

datatype 'p transform_result =
    Null
  | TransformLocalize string string "string set" 'p

definition transform :: "bool \<Rightarrow> string set \<Rightarrow> 'p \<Rightarrow> string \<Rightarrow> string \<Rightarrow> 'p transform_result" where
  "transform shouldInline pks babelPlugins code ident =
     (if \<not> shouldInline \<or> \<not> rx_test source_ext_rx ident
      then Null
      else TransformLocalize ident code pks babelPlugins)"

section \<open>The bundle hook\<close>

text \<open>The placeholder of line 150.\<close>

definition locale_placeholder :: string where
  "locale_placeholder = ''__$LOCALE$__''"

text \<open>Replacing every occurrence of a non-empty token, left to right.\<close>

function replace_all :: "string \<Rightarrow> string \<Rightarrow> string \<Rightarrow> string" where
  "replace_all tok r s =
     (if tok = [] \<or> s = [] then s
      else if prefix tok s then r @ replace_all tok r (drop (length tok) s)
      else hd s # replace_all tok r (tl s))"
  by pat_completeness auto

termination
  by (relation "measure (\<lambda>(tok, r, s). length s)") auto

declare replace_all.simps [simp del]

text \<open>
  \<^verbatim>\<open>JSON.stringify\<close> of a string that needs no escapes, as a locale code does.
\<close>

definition js_string :: "string \<Rightarrow> string" where
  "js_string s = [CHR 0x22] @ s @ [CHR 0x22]"

text \<open>
  Modelled from the spec: \<^verbatim>\<open>replaceGlobals\<close> of \<^verbatim>\<open>./transform-localize\<close>, which is not among
  the sources. The spec has it substitute the locale placeholder token with the concrete
  locale, leaving no instance of the token. The token stands where line 150 otherwise writes
  the default locale as a string literal, so the concrete locale is written as a string
  literal too. The spec names no other locale-scoped global, so the translations are not
  used here.
\<close>

definition replaceGlobals :: "string \<Rightarrow> string \<Rightarrow> (string \<times> jsval) list \<Rightarrow> string" where
  "replaceGlobals code locale trs = replace_all locale_placeholder (js_string locale) code"

text \<open>
  A file of the bundle is a chunk (it has \<^verbatim>\<open>code\<close>) or an asset (it has \<^verbatim>\<open>source\<close>).
  The bundle and \<^verbatim>\<open>emitFile\<close> are the host's. The hook's effect is the list of its calls to
  \<^verbatim>\<open>emitFile\<close>, every one of type asset. The hook reads \<^verbatim>\<open>Object.entries(bundle)\<close> anew for
  every locale (line 189): what it lists once the host has taken the given calls is a
  parameter.
\<close>

datatype output_file = Chunk string | Asset string

record emitted_file =
  fileName :: string
  source :: string

definition emit_copy :: "(string \<times> jsval) list \<Rightarrow> string \<Rightarrow> string \<times> output_file \<Rightarrow> emitted_file" where
  "emit_copy trs locale entry =
     (case snd entry of
        Chunk code \<Rightarrow>
          \<lparr>fileName = locale @ ''/'' @ fst entry, source = replaceGlobals code locale trs\<rparr>
      | Asset src \<Rightarrow>
          \<lparr>fileName = locale @ ''/'' @ fst entry, source = src\<rparr>)"

fun emit_locales ::
  "(emitted_file list \<Rightarrow> (string \<times> output_file) list) \<Rightarrow> (string \<times> jsval) list \<Rightarrow>
     string list \<Rightarrow> emitted_file list \<Rightarrow> emitted_file list" where
  "emit_locales entries trs [] emitted = emitted"
| "emit_locales entries trs (locale # rest) emitted =
     emit_locales entries trs rest (emitted @ map (emit_copy trs locale) (entries emitted))"

definition generateBundle ::
  "bool \<Rightarrow> string list \<Rightarrow> (string \<times> jsval) list \<Rightarrow>
     (emitted_file list \<Rightarrow> (string \<times> output_file) list) \<Rightarrow> emitted_file list" where
  "generateBundle shouldInline locales trs entries =
     (if \<not> shouldInline then [] else emit_locales entries trs locales [])"

text \<open>
  The bundle as the host keeps it while the hook runs. A call to \<^verbatim>\<open>emitFile\<close> with a
  \<^verbatim>\<open>fileName\<close> and a \<^verbatim>\<open>source\<close>, made while the bundle is generated, puts the asset into
  the bundle at once, under that name: a new name comes last, a name the bundle has keeps
  its place. So what \<^verbatim>\<open>Object.entries(bundle)\<close> lists after some calls is the files the
  bundle had when the hook was entered, with the emitted assets put in, in the order of the
  calls.
\<close>

definition host_entries ::
  "(string \<times> output_file) list \<Rightarrow> emitted_file list \<Rightarrow> (string \<times> output_file) list" where
  "host_entries files emitted =
     fold (\<lambda>e b. AList.update (fileName e) (Asset (source e)) b) emitted files"

section \<open>Notions the properties are stated with\<close>

text \<open>
  The pattern of a locale code in words: two lowercase letters, optionally followed by an
  underscore or a hyphen and two uppercase letters.
\<close>

definition lowercase_letter :: "char \<Rightarrow> bool" where
  "lowercase_letter c = (c \<in> set ''abcdefghijklmnopqrstuvwxyz'')"

definition uppercase_letter :: "char \<Rightarrow> bool" where
  "uppercase_letter c = (c \<in> set ''ABCDEFGHIJKLMNOPQRSTUVWXYZ'')"

definition locale_code_pattern :: "string \<Rightarrow> bool" where
  "locale_code_pattern l =
     (case l of
        [a, b] \<Rightarrow> lowercase_letter a \<and> lowercase_letter b
      | [a, b, s, c, d] \<Rightarrow>
          lowercase_letter a \<and> lowercase_letter b \<and> (s = CHR ''_'' \<or> s = CHR ''-'') \<and>
          uppercase_letter c \<and> uppercase_letter d
      | _ \<Rightarrow> False)"

text \<open>
  The name under which a module exports, when it is not a quoted string, is an identifier
  name: in the characters at hand a letter, a dollar sign or an underscore, followed by
  letters, digits, dollar signs and underscores.
\<close>

definition js_identifier_start :: "char \<Rightarrow> bool" where
  "js_identifier_start c =
     (in_range CHR ''a'' CHR ''z'' c \<or> in_range CHR ''A'' CHR ''Z'' c \<or>
      c = CHR ''$'' \<or> c = CHR ''_'')"

definition js_identifier :: "string \<Rightarrow> bool" where
  "js_identifier s =
     (case s of
        [] \<Rightarrow> False
      | c # cs \<Rightarrow>
          js_identifier_start c \<and>
          list_all (\<lambda>x. js_identifier_start x \<or> in_range CHR ''0'' CHR ''9'' x) cs)"

text \<open>The groups of the match of a locale code: the whole code, the language, the region.\<close>

definition locale_groups :: "string \<Rightarrow> (nat \<times> string) list" where
  "locale_groups l =
     (if length l = 2 then [(0, l), (1, l)]
      else [(0, l), (2, drop 2 l), (3, drop 3 l), (1, take 2 l)])"

text \<open>
  The record the build holds for a locale, read off the directory: the default record when
  the locale has no file, and otherwise the object in its file with a falsy name filled in.
\<close>

definition loaded_record :: "string \<Rightarrow> disk \<Rightarrow> string \<Rightarrow> (string \<times> jsval) list" where
  "loaded_record dir d l =
     (case d (localeFile dir l) of
        None \<Rightarrow> default_record l (locale_groups l)
      | Some (Json (JObj kvs)) \<Rightarrow>
          if \<not> truthy (obj_get kvs ''name'')
          then obj_set kvs ''name'' (JStr (default_name l (locale_groups l))) else kvs
      | Some other \<Rightarrow> [])"

text \<open>A value that is an object (arrays included) rather than a scalar or a function.\<close>

fun object_valued :: "jsval \<Rightarrow> bool" where
  "object_valued JUndefined = False"
| "object_valued JNull = False"
| "object_valued (JBool b) = False"
| "object_valued (JNum q) = False"
| "object_valued (JStr s) = False"
| "object_valued (JArr xs) = True"
| "object_valued (JObj kvs) = True"
| "object_valued (JBuiltin n) = (n = ''__proto__'')"

text \<open>A key whose value in the translations of a record is an object.\<close>

definition plural_in :: "(string \<times> jsval) list \<Rightarrow> string \<Rightarrow> bool" where
  "plural_in data k =
     (case object_entries (obj_get data ''translations'') of
        Inl e \<Rightarrow> False
      | Inr es \<Rightarrow> (\<exists>e \<in> set es. fst e = k \<and> object_valued (snd e)))"

text \<open>
  A module id with a recognised source-file extension, in words: a dot and one of the
  extensions, at the end of the id or right before a question mark.
\<close>

definition source_extensions :: "string list" where
  "source_extensions = [''cjs'', ''js'', ''mjs'', ''ts'', ''jsx'', ''tsx'']"

definition has_source_extension :: "string \<Rightarrow> bool" where
  "has_source_extension ident =
     (\<exists>pre ext post. ext \<in> set source_extensions \<and> ident = pre @ ''.'' @ ext @ post \<and>
        (post = [] \<or> (\<exists>rest. post = CHR ''?'' # rest)))"

text \<open>
  What a regular expression can leave of an input when it matches at its start, and the
  expressions that do not look at the position.
\<close>

fun rx_rests :: "rx \<Rightarrow> string \<Rightarrow> string set" where
  "rx_rests (Word w) s = (if prefix w s then {drop (length w) s} else {})"
| "rx_rests (Range lo hi) s = (case s of [] \<Rightarrow> {} | c # cs \<Rightarrow> if in_range lo hi c then {cs} else {})"
| "rx_rests (One_of cls) s = (case s of [] \<Rightarrow> {} | c # cs \<Rightarrow> if c \<in> set cls then {cs} else {})"
| "rx_rests (Cat r1 r2) s = (\<Union>m \<in> rx_rests r1 s. rx_rests r2 m)"
| "rx_rests (Alt r1 r2) s = rx_rests r1 s \<union> rx_rests r2 s"
| "rx_rests (Opt r) s = insert s (rx_rests r s)"
| "rx_rests (Grp n r) s = rx_rests r s"
| "rx_rests Bol s = {s}"
| "rx_rests Eol s = (if s = [] then {s} else {})"

fun bol_free :: "rx \<Rightarrow> bool" where
  "bol_free (Cat r1 r2) = (bol_free r1 \<and> bol_free r2)"
| "bol_free (Alt r1 r2) = (bol_free r1 \<and> bol_free r2)"
| "bol_free (Opt r) = bol_free r"
| "bol_free (Grp n r) = bol_free r"
| "bol_free Bol = False"
| "bol_free r = True"

section \<open>An example directory\<close>

text \<open>
  Two locale files: \<open>en.json\<close> without a name (the build fills one in), and \<open>nl.json\<close>
  falling back to \<open>en\<close>; the key \<open>items\<close> is a string in the first and an object in the
  second.
\<close>

definition example_en :: jsval where
  "example_en =
     JObj [(''locale'', JStr ''en''),
           (''translations'', JObj [(''hello'', JStr ''Hello''), (''items'', JStr ''items'')])]"

definition example_nl :: jsval where
  "example_nl =
     JObj [(''locale'', JStr ''nl''), (''name'', JStr ''Nederlands''), (''fallback'', JStr ''en''),
           (''translations'',
            JObj [(''hello'', JStr ''Hallo''),
                  (''items'', JObj [(''one'', JStr ''ding''), (''other'', JStr ''dingen'')])])]"

definition example_disk :: disk where
  "example_disk = [''/i18n/en.json'' \<mapsto> Json example_en, ''/i18n/nl.json'' \<mapsto> Json example_nl]"

text \<open>A bundle of one chunk and one asset.\<close>

definition example_bundle :: "(string \<times> output_file) list" where
  "example_bundle =
     [(''assets/app.js'', Chunk ''const l = __$LOCALE$__; t(__$LOCALE$__)''),
      (''logo.svg'', Asset ''<svg/>'')]"

text \<open>The records the build holds for \<open>en\<close> and for the locale \<open>fr_CA\<close>, which has no file.\<close>

definition example_en_loaded :: jsval where
  "example_en_loaded =
     JObj [(''locale'', JStr ''en''),
           (''translations'', JObj [(''hello'', JStr ''Hello''), (''items'', JStr ''items'')]),
           (''name'', JStr ''en'')]"

definition example_fr_CA :: jsval where
  "example_fr_CA =
     JObj [(''locale'', JStr ''fr_CA''), (''name'', JStr ''fr (CA)''), (''translations'', JObj [])]"

section \<open>The locale code pattern\<close>

lemma codes_lower: "map char_of [97..<123::nat] = ''abcdefghijklmnopqrstuvwxyz''"
  by code_simp

lemma codes_upper: "map char_of [65..<91::nat] = ''ABCDEFGHIJKLMNOPQRSTUVWXYZ''"
  by code_simp

lemma in_range_lower: "in_range CHR ''a'' CHR ''z'' c \<longleftrightarrow> lowercase_letter c"
proof
  assume "in_range CHR ''a'' CHR ''z'' c"
  then have "(of_char c :: nat) \<in> {97..<123}"
    by (simp add: in_range_def char_code_def)
  then have "(of_char c :: nat) \<in> set [97..<123]"
    by (simp only: set_upt)
  then have "char_of (of_char c :: nat) \<in> set (map char_of [97..<123::nat])"
    by (simp only: set_map) (rule imageI)
  then show "lowercase_letter c"
    by (simp only: codes_lower lowercase_letter_def char_of_char)
next
  assume "lowercase_letter c"
  then show "in_range CHR ''a'' CHR ''z'' c"
    by (auto simp: lowercase_letter_def in_range_def char_code_def)
qed

lemma in_range_upper: "in_range CHR ''A'' CHR ''Z'' c \<longleftrightarrow> uppercase_letter c"
proof
  assume "in_range CHR ''A'' CHR ''Z'' c"
  then have "(of_char c :: nat) \<in> {65..<91}"
    by (simp add: in_range_def char_code_def)
  then have "(of_char c :: nat) \<in> set [65..<91]"
    by (simp only: set_upt)
  then have "char_of (of_char c :: nat) \<in> set (map char_of [65..<91::nat])"
    by (simp only: set_map) (rule imageI)
  then show "uppercase_letter c"
    by (simp only: codes_upper uppercase_letter_def char_of_char)
next
  assume "uppercase_letter c"
  then show "in_range CHR ''A'' CHR ''Z'' c"
    by (auto simp: uppercase_letter_def in_range_def char_code_def)
qed

lemma rx_search_Bol_Suc: "rx_search (Cat Bol r) (Suc p) s = None"
proof (induction s arbitrary: p)
  case Nil
  show ?case by (subst rx_search.simps) simp
next
  case (Cons c cs)
  show ?case by (subst rx_search.simps) (simp add: Cons.IH)
qed

lemma rx_exec_Bol:
  "rx_exec (Cat Bol r) s =
     (case rx_step r (0, s, []) of
        st # x \<Rightarrow> Some ((0, take (fst st) s) # snd (snd st))
      | [] \<Rightarrow> None)"
  unfolding rx_exec_def
  by (subst rx_search.simps) (simp add: rx_search_Bol_Suc split: list.splits)

lemma list_shapes:
  obtains "l = []" | a where "l = [a]" | a b where "l = [a, b]" | a b c where "l = [a, b, c]"
  | a b c d where "l = [a, b, c, d]" | a b c d e where "l = [a, b, c, d, e]"
  | a b c d e f r where "l = a # b # c # d # e # f # r"
  by (metis list.exhaust)

lemma rx_exec_locale:
  "rx_exec locale_rx l = (if locale_code_pattern l then Some (locale_groups l) else None)"
proof (cases l rule: list_shapes)
  case 1 then show ?thesis
    by (simp add: locale_rx_def rx_exec_Bol locale_code_pattern_def)
next
  case (2 a) then show ?thesis
    by (simp add: locale_rx_def rx_exec_Bol locale_code_pattern_def)
next
  case (3 a b) then show ?thesis
    by (simp add: locale_rx_def rx_exec_Bol locale_code_pattern_def in_range_lower locale_groups_def)
next
  case (4 a b c) then show ?thesis
    by (simp add: locale_rx_def rx_exec_Bol locale_code_pattern_def in_range_lower in_range_upper)
next
  case (5 a b c d) then show ?thesis
    by (simp add: locale_rx_def rx_exec_Bol locale_code_pattern_def in_range_lower in_range_upper)
next
  case (6 a b c d e) then show ?thesis
    by (auto simp add: locale_rx_def rx_exec_Bol locale_code_pattern_def in_range_lower in_range_upper locale_groups_def)
next
  case (7 a b c d e f r) then show ?thesis
    by (simp add: locale_rx_def rx_exec_Bol locale_code_pattern_def in_range_lower in_range_upper)
qed

section \<open>The walk over the fallbacks\<close>

text \<open>
  The loop reads \<^verbatim>\<open>fallbacks[data.fallback]\<close> again on every round and nothing in its
  body changes it: it leaves at once when the entry is falsy, throws at once when the entry
  is the current locale, and otherwise never leaves.
\<close>

lemma follow_fallbacks_falsy:
  "\<not> truthy (obj_get fbs fb) \<Longrightarrow> follow_fallbacks fbs fb l f = Some (Inr ())"
  by (subst follow_fallbacks.simps) simp

lemma follow_fallbacks_circular:
  "truthy (obj_get fbs fb) \<Longrightarrow> obj_get fbs fb = JStr l \<Longrightarrow>
   follow_fallbacks fbs fb l f = Some (Inl (Circular_fallback f fb))"
  by (subst follow_fallbacks.simps) simp

lemma follow_fallbacks_diverges:
  assumes "truthy (obj_get fbs fb)" and "obj_get fbs fb \<noteq> JStr l"
  shows "follow_fallbacks fbs fb l f = None"
proof (rule ccontr)
  assume "follow_fallbacks fbs fb l f \<noteq> None"
  then obtain y where y: "follow_fallbacks fbs fb l f = Some y" by auto
  have "\<not> (truthy (obj_get fbs fb) \<and> obj_get fbs fb \<noteq> JStr l)"
    by (rule follow_fallbacks.raw_induct
          [where P = "\<lambda>fbs fb l f y. \<not> (truthy (obj_get fbs fb) \<and> obj_get fbs fb \<noteq> JStr l)",
           OF _ y])
       (auto split: if_splits)
  with assms show False by simp
qed

lemma follow_fallbacks_eq:
  "follow_fallbacks fbs fb l f =
     (if truthy (obj_get fbs fb)
      then (if obj_get fbs fb = JStr l then Some (Inl (Circular_fallback f fb)) else None)
      else Some (Inr ()))"
  by (simp add: follow_fallbacks_falsy follow_fallbacks_circular follow_fallbacks_diverges)

section \<open>Validation of the locale codes\<close>

lemma object_entries_error: "object_entries x = Inl e \<Longrightarrow> e = Type_error"
  by (cases x) auto

lemma register_locale_error: "register_locale l data v = Inl e \<Longrightarrow> e = Type_error"
  by (auto simp: register_locale_def dest: object_entries_error split: sum.splits)

lemma register_locale_invalid: "register_locale l data v \<noteq> Inl (Invalid_locale x)"
  using register_locale_error by fastforce

lemma check_record_invalid:
  "check_record ls l m f kvs v \<noteq> Some (Inl (Invalid_locale x))"
  by (simp add: check_record_def follow_fallbacks_eq Let_def register_locale_invalid
           split: jsval.split)

lemma load_record_invalid:
  "load_record ls l m f file v \<noteq> Some (Inl (Invalid_locale x))"
  by (simp add: load_record_def check_record_invalid split: disk_file.split jsval.split)

lemma buildStart_locale_rejects:
  "\<not> locale_code_pattern l \<Longrightarrow> buildStart_locale dir ls l d v = Some (d, Inl (Invalid_locale l))"
  by (simp add: buildStart_locale_def rx_exec_locale)

lemma buildStart_locale_invalid:
  assumes "buildStart_locale dir ls l d v = Some (d', Inl (Invalid_locale x))"
  shows "x = l \<and> \<not> locale_code_pattern l"
proof (cases "locale_code_pattern l")
  case False
  with assms show ?thesis by (simp add: buildStart_locale_rejects)
next
  case True
  show ?thesis
  proof (cases "d (localeFile dir l)")
    case None
    with assms True show ?thesis
      by (simp add: buildStart_locale_def rx_exec_locale register_locale_invalid)
  next
    case (Some f)
    with assms True show ?thesis
      by (auto simp: buildStart_locale_def rx_exec_locale load_record_invalid)
  qed
qed

lemma buildStart_locale_accepts:
  "buildStart_locale dir ls l d v = Some (d', Inr v') \<Longrightarrow> locale_code_pattern l"
  by (rule ccontr) (simp add: buildStart_locale_rejects)

lemma for_locales_invalid:
  "for_locales dir ls ls' d v = Some (d', Inl (Invalid_locale x)) \<Longrightarrow>
   x \<in> set ls' \<and> \<not> locale_code_pattern x"
proof (induction ls' arbitrary: d v)
  case Nil
  then show ?case by simp
next
  case (Cons l rest)
  show ?case
  proof (cases "buildStart_locale dir ls l d v")
    case None
    with Cons.prems show ?thesis by simp
  next
    case (Some res)
    obtain d1 r where res: "res = (d1, r)" by (cases res)
    show ?thesis
    proof (cases r)
      case (Inl e)
      with Cons.prems Some res have "buildStart_locale dir ls l d v = Some (d', Inl (Invalid_locale x))"
        by simp
      then show ?thesis using buildStart_locale_invalid by fastforce
    next
      case (Inr v1)
      with Cons.prems Some res have "for_locales dir ls rest d1 v1 = Some (d', Inl (Invalid_locale x))"
        by simp
      then show ?thesis using Cons.IH by fastforce
    qed
  qed
qed

lemma for_locales_accepts:
  "for_locales dir ls ls' d v = Some (d', Inr v') \<Longrightarrow> \<forall>l \<in> set ls'. locale_code_pattern l"
proof (induction ls' arbitrary: d v)
  case Nil
  then show ?case by simp
next
  case (Cons l rest)
  show ?case
  proof (cases "buildStart_locale dir ls l d v")
    case None
    with Cons.prems show ?thesis by simp
  next
    case (Some res)
    obtain d1 r where res: "res = (d1, r)" by (cases res)
    show ?thesis
    proof (cases r)
      case (Inl e)
      with Cons.prems Some res show ?thesis by simp
    next
      case (Inr v1)
      with Cons.prems Some res have "for_locales dir ls rest d1 v1 = Some (d', Inr v')"
        by simp
      moreover from Some res Inr have "locale_code_pattern l"
        using buildStart_locale_accepts by simp
      ultimately show ?thesis using Cons.IH by simp
    qed
  qed
qed

section \<open>What one round and the whole loop do to the directory and the records\<close>

lemma for_locales_ConsE:
  assumes "for_locales dir ls (l # rest) d v = Some (d', r)"
  obtains e where "buildStart_locale dir ls l d v = Some (d', Inl e)" and "r = Inl e"
  | d1 v1 where "buildStart_locale dir ls l d v = Some (d1, Inr v1)"
      and "for_locales dir ls rest d1 v1 = Some (d', r)"
  using assms by (auto split: option.splits sum.splits)

lemma pattern_length: "locale_code_pattern l \<Longrightarrow> length l = 2 \<or> length l = 5"
  by (auto simp: locale_code_pattern_def split: list.splits)

lemma default_name_groups:
  "locale_code_pattern l \<Longrightarrow>
   default_name l (locale_groups l) =
     (if length l = 2 then l else take 2 l @ '' ('' @ drop 3 l @ '')'')"
  by (auto simp: default_name_def locale_groups_def rx_group_def template_def
           dest: pattern_length)

lemma default_name_nonempty: "locale_code_pattern l \<Longrightarrow> default_name l (locale_groups l) \<noteq> []"
  using pattern_length [of l] by (auto simp: default_name_groups)

lemma default_record_fields:
  "obj_get (default_record l m) ''locale'' = JStr l"
  "obj_get (default_record l m) ''name'' = JStr (default_name l m)"
  "obj_get (default_record l m) ''fallback'' = JUndefined"
  "obj_get (default_record l m) ''translations'' = JObj []"
  by (simp_all add: default_record_def obj_get_def object_prototype_names_def)

lemma load_default_record:
  assumes "locale_code_pattern l"
  shows "load_record ls l (locale_groups l) f (Json (JObj (default_record l (locale_groups l)))) v =
           Some (register_locale l (default_record l (locale_groups l)) v)"
  using default_name_nonempty [OF assms]
  by (simp add: load_record_def check_record_def default_record_fields)

lemma localeFile_inj: "localeFile dir x = localeFile dir l \<longleftrightarrow> x = l"
  by (simp add: localeFile_def)

lemma buildStart_locale_disk:
  assumes "buildStart_locale dir ls l d v = Some (d', r)"
  shows "d' = d \<or>
         (d (localeFile dir l) = None \<and> locale_code_pattern l \<and>
          d' = d(localeFile dir l \<mapsto> Json (JObj (default_record l (locale_groups l)))))"
  using assms
  by (auto simp: buildStart_locale_def rx_exec_locale split: option.splits if_splits)

lemma buildStart_locale_exists:
  assumes "buildStart_locale dir ls l d v = Some (d', Inr v')"
  shows "d' (localeFile dir l) \<noteq> None"
  using assms
  by (auto simp: buildStart_locale_def rx_exec_locale split: option.splits if_splits)

lemma for_locales_disk:
  assumes "for_locales dir ls ls' d v = Some (d', r)"
  shows "d' p = d p \<or>
         (d p = None \<and>
          (\<exists>l \<in> set ls'. locale_code_pattern l \<and> p = localeFile dir l \<and>
             d' p = Some (Json (JObj (default_record l (locale_groups l))))))"
  using assms
proof (induction ls' arbitrary: d v)
  case Nil
  then show ?case by simp
next
  case (Cons l rest)
  from Cons.prems show ?case
  proof (cases rule: for_locales_ConsE)
    case (1 e)
    then show ?thesis using buildStart_locale_disk [OF 1(1)] by (auto split: if_splits)
  next
    case (2 d1 v1)
    from buildStart_locale_disk [OF 2(1)] Cons.IH [OF 2(2)]
    show ?thesis by (auto split: if_splits)
  qed
qed

lemma buildStart_locale_rerun:
  assumes run: "buildStart_locale dir ls l d v = Some (d1, Inr v1)"
    and same: "D (localeFile dir l) = d1 (localeFile dir l)"
  shows "buildStart_locale dir ls l D v = Some (D, Inr v1)"
proof -
  have pat: "locale_code_pattern l"
    using run by (rule buildStart_locale_accepts)
  show ?thesis
  proof (cases "d (localeFile dir l)")
    case None
    with run pat have d1: "d1 = d(localeFile dir l \<mapsto> Json (JObj (default_record l (locale_groups l))))"
      and v1: "register_locale l (default_record l (locale_groups l)) v = Inr v1"
      by (auto simp: buildStart_locale_def rx_exec_locale)
    from same d1 have "D (localeFile dir l) = Some (Json (JObj (default_record l (locale_groups l))))"
      by simp
    with pat v1 show ?thesis
      by (simp add: buildStart_locale_def rx_exec_locale load_default_record)
  next
    case (Some f)
    with run pat have d1: "d1 = d"
      and v1: "load_record ls l (locale_groups l) (localeFile dir l) f v = Some (Inr v1)"
      by (auto simp: buildStart_locale_def rx_exec_locale)
    from same d1 Some have "D (localeFile dir l) = Some f" by simp
    with pat v1 show ?thesis
      by (simp add: buildStart_locale_def rx_exec_locale)
  qed
qed

lemma for_locales_rerun:
  assumes "for_locales dir ls ls' d v = Some (d', Inr v')"
    and "\<forall>l \<in> set ls'. D (localeFile dir l) = d' (localeFile dir l)"
  shows "for_locales dir ls ls' D v = Some (D, Inr v')"
  using assms
proof (induction ls' arbitrary: d v)
  case Nil
  then show ?case by simp
next
  case (Cons l rest)
  from Cons.prems(1) show ?case
  proof (cases rule: for_locales_ConsE)
    case (1 e)
    then show ?thesis by simp
  next
    case (2 d1 v1)
    have "d1 (localeFile dir l) \<noteq> None"
      using 2(1) by (rule buildStart_locale_exists)
    with for_locales_disk [OF 2(2), of "localeFile dir l"]
    have "d' (localeFile dir l) = d1 (localeFile dir l)" by auto
    with Cons.prems(2) have "D (localeFile dir l) = d1 (localeFile dir l)" by simp
    with 2(1) have head: "buildStart_locale dir ls l D v = Some (D, Inr v1)"
      by (rule buildStart_locale_rerun)
    from Cons.prems(2) have "\<forall>x \<in> set rest. D (localeFile dir x) = d' (localeFile dir x)"
      by simp
    with 2(2) have "for_locales dir ls rest D v1 = Some (D, Inr v')"
      by (rule Cons.IH)
    with head show ?thesis by simp
  qed
qed

lemma loaded_record_default:
  assumes "locale_code_pattern l"
    and "d (localeFile dir l) = Some (Json (JObj (default_record l (locale_groups l))))"
  shows "loaded_record dir d l = default_record l (locale_groups l)"
  using assms default_name_nonempty [OF assms(1)]
  by (simp add: loaded_record_def default_record_fields)

lemma loaded_record_stable:
  assumes "buildStart_locale dir ls l d v = Some (d1, r)"
  shows "loaded_record dir d1 x = loaded_record dir d x"
proof -
  from buildStart_locale_disk [OF assms] show ?thesis
  proof
    assume "d1 = d"
    then show ?thesis by simp
  next
    assume new: "d (localeFile dir l) = None \<and> locale_code_pattern l \<and>
      d1 = d(localeFile dir l \<mapsto> Json (JObj (default_record l (locale_groups l))))"
    show ?thesis
    proof (cases "x = l")
      case True
      with new have "loaded_record dir d1 x = default_record l (locale_groups l)"
        by (simp add: loaded_record_default)
      moreover from True new have "loaded_record dir d x = default_record l (locale_groups l)"
        by (simp add: loaded_record_def)
      ultimately show ?thesis by simp
    next
      case False
      with new show ?thesis
        by (simp add: loaded_record_def localeFile_inj)
    qed
  qed
qed

lemma check_record_registers:
  assumes "check_record ls l m f kvs v = Some (Inr v1)"
  shows "\<exists>fbs. register_locale l
           (if \<not> truthy (obj_get kvs ''name'') then obj_set kvs ''name'' (JStr (default_name l m)) else kvs)
           (v\<lparr>fallbacks := fbs\<rparr>) = Inr v1"
proof (cases "truthy (obj_get (if \<not> truthy (obj_get kvs ''name'') then obj_set kvs ''name'' (JStr (default_name l m)) else kvs) ''fallback'')")
  case False
  with assms have "register_locale l
           (if \<not> truthy (obj_get kvs ''name'') then obj_set kvs ''name'' (JStr (default_name l m)) else kvs)
           (v\<lparr>fallbacks := fallbacks v\<rparr>) = Inr v1"
    by (simp add: check_record_def Let_def split: if_splits)
  then show ?thesis by blast
next
  case True
  with assms show ?thesis
    by (auto simp: check_record_def Let_def follow_fallbacks_eq split: if_splits jsval.splits)
qed

lemma buildStart_locale_registers:
  assumes "buildStart_locale dir ls l d v = Some (d1, Inr v1)"
  shows "\<exists>fbs. register_locale l (loaded_record dir d l) (v\<lparr>fallbacks := fbs\<rparr>) = Inr v1"
proof -
  have pat: "locale_code_pattern l"
    using assms by (rule buildStart_locale_accepts)
  show ?thesis
  proof (cases "d (localeFile dir l)")
    case None
    with assms pat have "register_locale l (loaded_record dir d l) (v\<lparr>fallbacks := fallbacks v\<rparr>) = Inr v1"
      by (auto simp: buildStart_locale_def rx_exec_locale loaded_record_def)
    then show ?thesis by blast
  next
    case (Some f)
    with assms pat have "load_record ls l (locale_groups l) (localeFile dir l) f v = Some (Inr v1)"
      by (auto simp: buildStart_locale_def rx_exec_locale)
    then obtain kvs where f: "f = Json (JObj kvs)"
      and "check_record ls l (locale_groups l) (localeFile dir l) kvs v = Some (Inr v1)"
      by (auto simp: load_record_def split: disk_file.splits jsval.splits)
    from check_record_registers [OF this(2)] Some f show ?thesis
      by (simp add: loaded_record_def)
  qed
qed

lemma object_valued_iff: "truthy tr \<and> typeof tr = ''object'' \<longleftrightarrow> object_valued tr"
  by (cases tr) auto

lemma add_plural_eq: "add_plural (k, tr) pk = (if object_valued tr then insert k pk else pk)"
  using object_valued_iff [of tr] by (simp add: add_plural_def)

lemma fold_add_plural:
  "fold add_plural es pk = pk \<union> {k. \<exists>tr. (k, tr) \<in> set es \<and> object_valued tr}"
proof (induction es arbitrary: pk)
  case Nil
  then show ?case by simp
next
  case (Cons e es)
  obtain k tr where e: "e = (k, tr)" by (cases e)
  show ?case
    by (auto simp: Cons.IH add_plural_eq e)
qed

lemma register_locale_Inr:
  assumes "register_locale l data v = Inr v1"
  shows "translation_records v1 = obj_set (translation_records v) l (JObj data)"
    and "pluralKeys v1 = pluralKeys v \<union> {k. plural_in data k}"
    and "localeNames v1 = obj_set (localeNames v) l (obj_get data ''name'')"
  using assms
  by (force simp: register_locale_def plural_in_def fold_add_plural split: sum.splits)+

lemma buildStart_locale_Inr:
  assumes "buildStart_locale dir ls l d v = Some (d1, Inr v1)"
  shows "translation_records v1 = obj_set (translation_records v) l (JObj (loaded_record dir d l))"
    and "pluralKeys v1 = pluralKeys v \<union> {k. plural_in (loaded_record dir d l) k}"
proof -
  from buildStart_locale_registers [OF assms] obtain fbs
    where "register_locale l (loaded_record dir d l) (v\<lparr>fallbacks := fbs\<rparr>) = Inr v1" ..
  from register_locale_Inr [OF this]
  show "translation_records v1 = obj_set (translation_records v) l (JObj (loaded_record dir d l))"
    and "pluralKeys v1 = pluralKeys v \<union> {k. plural_in (loaded_record dir d l) k}"
    by simp_all
qed

lemma map_of_obj_set: "map_of (obj_set kvs k x) = (map_of kvs)(k \<mapsto> x)"
  by (simp add: obj_set_def update_conv')

lemma for_locales_records:
  assumes "for_locales dir ls ls' d v = Some (d', Inr v')"
  shows "map_of (translation_records v') x =
           (if x \<in> set ls' then Some (JObj (loaded_record dir d x))
            else map_of (translation_records v) x)"
    and "pluralKeys v' = pluralKeys v \<union> {k. \<exists>l \<in> set ls'. plural_in (loaded_record dir d l) k}"
  using assms
proof (induction ls' arbitrary: d v)
  case Nil
  { case 1 then show ?case by simp }
  { case 2 then show ?case by simp }
next
  case (Cons l rest)
  { case 1
    from 1 show ?case
    proof (cases rule: for_locales_ConsE)
      case (2 d1 v1)
      from Cons.IH(1) [OF 2(2)] buildStart_locale_Inr(1) [OF 2(1)] loaded_record_stable [OF 2(1)]
      show ?thesis by (simp add: map_of_obj_set)
    qed simp }
  { case 2
    from 2 show ?case
    proof (cases rule: for_locales_ConsE)
      case (2 d1 v1)
      from Cons.IH(2) [OF 2(2)] buildStart_locale_Inr(2) [OF 2(1)] loaded_record_stable [OF 2(1)]
      show ?thesis by auto
    qed simp }
qed

lemma for_locales_exists:
  assumes "for_locales dir ls ls' d v = Some (d', Inr v')" and "l \<in> set ls'"
  shows "d' (localeFile dir l) \<noteq> None"
  using assms
proof (induction ls' arbitrary: d v)
  case Nil
  then show ?case by simp
next
  case (Cons x rest)
  from Cons.prems(1) show ?case
  proof (cases rule: for_locales_ConsE)
    case (1 e)
    then show ?thesis by simp
  next
    case (2 d1 v1)
    show ?thesis
    proof (cases "l \<in> set rest")
      case True
      with 2(2) show ?thesis by (rule Cons.IH)
    next
      case False
      with Cons.prems(2) have "l = x" by simp
      with buildStart_locale_exists [OF 2(1)] have "d1 (localeFile dir l) \<noteq> None" by simp
      with for_locales_disk [OF 2(2), of "localeFile dir l"] show ?thesis by auto
    qed
  qed
qed

section \<open>Builds on concrete directories\<close>

lemma rx_en: "rx_exec locale_rx ''en'' = Some [(0, ''en''), (1, ''en'')]"
  by code_simp

lemma rx_nl: "rx_exec locale_rx ''nl'' = Some [(0, ''nl''), (1, ''nl'')]"
  by code_simp

lemma rx_fr: "rx_exec locale_rx ''fr'' = Some [(0, ''fr''), (1, ''fr'')]"
  by code_simp

lemmas build_eval = buildStart_def buildStart_locale_def load_record_def check_record_def
  register_locale_def default_record_def default_name_def rx_group_def template_def
  localeFile_def obj_get_def obj_set_def object_prototype_names_def add_plural_def
  follow_fallbacks_eq

lemmas example_eval = build_eval rx_exec_locale locale_code_pattern_def lowercase_letter_def
  uppercase_letter_def locale_groups_def example_disk_def example_en_def example_nl_def

lemma example_build:
  "buildStart ''/i18n'' [''en'', ''nl'', ''fr_CA''] [] example_disk =
     Some (example_disk(''/i18n/fr_CA.json'' \<mapsto> Json example_fr_CA),
           Inr \<lparr>fallbacks = [(''nl'', JStr ''en'')],
                localeNames = [(''en'', JStr ''en''), (''nl'', JStr ''Nederlands''),
                               (''fr_CA'', JStr ''fr (CA)'')],
                translation_records = [(''en'', example_en_loaded), (''nl'', example_nl),
                                       (''fr_CA'', example_fr_CA)],
                pluralKeys = {''items''}\<rparr>)"
  by (simp add: example_eval example_en_loaded_def example_fr_CA_def)

lemma example_build_en_nl:
  "buildStart ''/i18n'' [''en'', ''nl''] [] example_disk =
     Some (example_disk,
           Inr \<lparr>fallbacks = [(''nl'', JStr ''en'')],
                localeNames = [(''en'', JStr ''en''), (''nl'', JStr ''Nederlands'')],
                translation_records = [(''en'', example_en_loaded), (''nl'', example_nl)],
                pluralKeys = {''items''}\<rparr>)"
  by (simp add: example_eval example_en_loaded_def)

lemma example_build_nl_en:
  "buildStart ''/i18n'' [''nl'', ''en''] [] example_disk =
     Some (example_disk,
           Inr \<lparr>fallbacks = [(''nl'', JStr ''en'')],
                localeNames = [(''nl'', JStr ''Nederlands''), (''en'', JStr ''en'')],
                translation_records = [(''nl'', example_nl), (''en'', example_en_loaded)],
                pluralKeys = {''items''}\<rparr>)"
  by (simp add: example_eval example_en_loaded_def)

section \<open>The source extensions\<close>

lemma rx_step_rests:
  "bol_free r \<Longrightarrow> (\<lambda>st. fst (snd st)) ` set (rx_step r (p, s, g)) = rx_rests r s"
proof (induction r arbitrary: p s g)
  case (Cat r1 r2)
  have "(\<lambda>st. fst (snd st)) ` set (rx_step (Cat r1 r2) (p, s, g)) =
        (\<Union>st1 \<in> set (rx_step r1 (p, s, g)). (\<lambda>st. fst (snd st)) ` set (rx_step r2 st1))"
    by auto
  also have "\<dots> = (\<Union>st1 \<in> set (rx_step r1 (p, s, g)). rx_rests r2 (fst (snd st1)))"
  proof -
    have "(\<lambda>st. fst (snd st)) ` set (rx_step r2 st1) = rx_rests r2 (fst (snd st1))" for st1
      using Cat.IH(2) [of "fst st1" "fst (snd st1)" "snd (snd st1)"] Cat.prems by simp
    then show ?thesis by simp
  qed
  also have "\<dots> = (\<Union>m \<in> (\<lambda>st. fst (snd st)) ` set (rx_step r1 (p, s, g)). rx_rests r2 m)"
    by blast
  also have "\<dots> = rx_rests (Cat r1 r2) s"
    using Cat.IH(1) [of p s g] Cat.prems by simp
  finally show ?case .
next
  case (Alt r1 r2)
  then show ?case by (simp add: image_Un)
next
  case (Opt r)
  then show ?case by simp
next
  case (Grp n r)
  have "(\<lambda>st. fst (snd st)) ` set (rx_step (Grp n r) (p, s, g)) =
        (\<lambda>st. fst (snd st)) ` set (rx_step r (p, s, g))"
    by (force simp: image_iff)
  with Grp show ?case by simp
qed (auto split: list.splits)

lemma rx_step_nonempty:
  "bol_free r \<Longrightarrow> rx_step r (p, s, g) \<noteq> [] \<longleftrightarrow> rx_rests r s \<noteq> {}"
  using rx_step_rests [of r p s g] by (metis image_is_empty set_empty)

lemma rx_search_unfold:
  "rx_search r p s \<noteq> None \<longleftrightarrow>
     rx_step r (p, s, []) \<noteq> [] \<or> (\<exists>c cs. s = c # cs \<and> rx_search r (Suc p) cs \<noteq> None)"
  by (subst rx_search.simps) (auto split: list.splits)

lemma rx_search_iff:
  assumes "bol_free r"
  shows "rx_search r p s \<noteq> None \<longleftrightarrow> (\<exists>pre t. s = pre @ t \<and> rx_rests r t \<noteq> {})"
proof (induction s arbitrary: p)
  case Nil
  show ?case
    unfolding rx_search_unfold [of r p "[]"] rx_step_nonempty [OF assms] by simp
next
  case (Cons c cs)
  have "rx_search r p (c # cs) \<noteq> None \<longleftrightarrow>
        rx_rests r (c # cs) \<noteq> {} \<or> rx_search r (Suc p) cs \<noteq> None"
    unfolding rx_search_unfold [of r p "c # cs"] rx_step_nonempty [OF assms] by simp
  also have "\<dots> \<longleftrightarrow> rx_rests r (c # cs) \<noteq> {} \<or> (\<exists>pre t. cs = pre @ t \<and> rx_rests r t \<noteq> {})"
    by (simp only: Cons.IH)
  also have "\<dots> \<longleftrightarrow> (\<exists>pre t. c # cs = pre @ t \<and> rx_rests r t \<noteq> {})"
  proof
    assume "rx_rests r (c # cs) \<noteq> {} \<or> (\<exists>pre t. cs = pre @ t \<and> rx_rests r t \<noteq> {})"
    then show "\<exists>pre t. c # cs = pre @ t \<and> rx_rests r t \<noteq> {}"
    proof
      assume "rx_rests r (c # cs) \<noteq> {}"
      then have "c # cs = [] @ (c # cs) \<and> rx_rests r (c # cs) \<noteq> {}" by simp
      then show ?thesis by blast
    next
      assume "\<exists>pre t. cs = pre @ t \<and> rx_rests r t \<noteq> {}"
      then obtain pre t where "cs = pre @ t" and "rx_rests r t \<noteq> {}" by blast
      then have "c # cs = (c # pre) @ t \<and> rx_rests r t \<noteq> {}" by simp
      then show ?thesis by blast
    qed
  next
    assume "\<exists>pre t. c # cs = pre @ t \<and> rx_rests r t \<noteq> {}"
    then obtain pre t where eq: "c # cs = pre @ t" and ne: "rx_rests r t \<noteq> {}" by blast
    show "rx_rests r (c # cs) \<noteq> {} \<or> (\<exists>pre t. cs = pre @ t \<and> rx_rests r t \<noteq> {})"
    proof (cases pre)
      case Nil
      with eq ne show ?thesis by simp
    next
      case (Cons x pre')
      with eq have "cs = pre' @ t" by simp
      with ne show ?thesis by blast
    qed
  qed
  finally show ?case .
qed

lemma in_rests_Word: "t \<in> rx_rests (Word w) s \<longleftrightarrow> s = w @ t"
  by (auto simp: prefix_def)

lemma in_rests_Eol: "t \<in> rx_rests Eol s \<longleftrightarrow> s = [] \<and> t = []"
  by auto

lemma in_rests_Cat: "t \<in> rx_rests (Cat r1 r2) s \<longleftrightarrow> (\<exists>m. m \<in> rx_rests r1 s \<and> t \<in> rx_rests r2 m)"
  by auto

lemma in_rests_Alt: "t \<in> rx_rests (Alt r1 r2) s \<longleftrightarrow> t \<in> rx_rests r1 s \<or> t \<in> rx_rests r2 s"
  by simp

lemma in_rests_Grp: "t \<in> rx_rests (Grp n r) s \<longleftrightarrow> t \<in> rx_rests r s"
  by simp

lemma in_rests_extension:
  "m2 \<in> rx_rests (Alt (Word ''cjs'') (Alt (Word ''js'') (Alt (Word ''mjs'')
                     (Alt (Word ''ts'') (Alt (Word ''jsx'') (Word ''tsx'')))))) m1 \<longleftrightarrow>
   (\<exists>ext \<in> set source_extensions. m1 = ext @ m2)"
  unfolding in_rests_Alt in_rests_Word by (simp add: source_extensions_def)

lemma in_rests_end: "u \<in> rx_rests (Alt Eol (Word ''?'')) m2 \<longleftrightarrow> (m2 = [] \<and> u = []) \<or> m2 = CHR ''?'' # u"
  unfolding in_rests_Alt in_rests_Word in_rests_Eol by simp

lemma source_ext_rests:
  "rx_rests source_ext_rx t \<noteq> {} \<longleftrightarrow>
     (\<exists>ext post. ext \<in> set source_extensions \<and> t = ''.'' @ ext @ post \<and>
        (post = [] \<or> (\<exists>rest. post = CHR ''?'' # rest)))"
proof -
  have "rx_rests source_ext_rx t \<noteq> {} \<longleftrightarrow> (\<exists>u. u \<in> rx_rests source_ext_rx t)"
    by blast
  also have "\<dots> \<longleftrightarrow>
     (\<exists>u m1 m2. t = ''.'' @ m1 \<and> (\<exists>ext \<in> set source_extensions. m1 = ext @ m2) \<and>
        ((m2 = [] \<and> u = []) \<or> m2 = CHR ''?'' # u))"
    unfolding source_ext_rx_def in_rests_Cat in_rests_Grp in_rests_extension in_rests_end
      in_rests_Word
    by blast
  also have "\<dots> \<longleftrightarrow>
     (\<exists>ext post. ext \<in> set source_extensions \<and> t = ''.'' @ ext @ post \<and>
        (post = [] \<or> (\<exists>rest. post = CHR ''?'' # rest)))"
    by blast
  finally show ?thesis .
qed

lemma rx_test_source_ext: "rx_test source_ext_rx ident \<longleftrightarrow> has_source_extension ident"
proof -
  have "bol_free source_ext_rx" by (simp add: source_ext_rx_def)
  then have "rx_test source_ext_rx ident \<longleftrightarrow>
      (\<exists>pre t. ident = pre @ t \<and> rx_rests source_ext_rx t \<noteq> {})"
    unfolding rx_test_def rx_exec_def by (rule rx_search_iff)
  also have "\<dots> \<longleftrightarrow> has_source_extension ident"
    unfolding source_ext_rests has_source_extension_def by blast
  finally show ?thesis .
qed

lemma rx_test_app: "rx_test source_ext_rx ''src/app.tsx?v=1''"
  by code_simp

lemma rx_test_css: "\<not> rx_test source_ext_rx ''src/style.css''"
  by code_simp

section \<open>The text of the locales module\<close>

lemma sublist_in_context: "sublist x ys \<Longrightarrow> sublist x (ps @ ys @ ss)"
proof -
  assume "sublist x ys"
  then obtain p q where "ys = p @ x @ q" by (auto simp: sublist_def)
  then have "ps @ ys @ ss = (ps @ p) @ x @ (q @ ss)" by simp
  then show ?thesis unfolding sublist_def by blast
qed

lemma join_sublist: "x \<in> set xs \<Longrightarrow> sublist x (join sep xs)"
proof (induction sep xs rule: join.induct)
  case (1 sep)
  then show ?case by simp
next
  case (2 sep y)
  then show ?case by simp
next
  case (3 sep y z zs)
  show ?case
  proof (cases "x = y")
    case True
    then show ?thesis by simp
  next
    case False
    with 3 have "sublist x (join sep (z # zs))" by simp
    then have "sublist x ((y @ sep) @ join sep (z # zs) @ [])"
      by (rule sublist_in_context)
    then show ?thesis by simp
  qed
qed

lemma export_line_file:
  "export_line dir l = ''export {default as '' @ l @ ''} from '' @ quote @ localeFile dir l @ quote"
  by (simp add: export_line_def localeFile_def)

text \<open>
  The text that \<^verbatim>\<open>load\<close> returns for the locales module: empty exactly when
  \<^verbatim>\<open>shouldInline\<close> is true, that is when \<^verbatim>\<open>build.ssr\<close> is truthy or the build is not a
  production build, and otherwise the header followed by one line per configured locale, in
  order, that names the locale code and the locale's file.
\<close>

lemma locales_module_text:
  "(load (configResolved cfg) dir ls ns dflt locales_module_id = Some (Locales_module []) \<longleftrightarrow>
      truthy (build_ssr cfg) \<or> \<not> isProduction cfg) \<and>
   (load si dir ls ns dflt locales_module_id = Some (Locales_module []) \<longleftrightarrow> si) \<and>
   (\<not> si \<longrightarrow>
      load si dir ls ns dflt locales_module_id =
        Some (Locales_module
                (locales_module_header @ join newline (map (export_line dir) ls) @ newline))) \<and>
   (\<forall>l \<in> set ls.
      sublist (''export {default as '' @ l @ ''} from '' @ quote @ localeFile dir l @ quote)
        (locales_module_header @ join newline (map (export_line dir) ls) @ newline))"
proof -
  have nonempty: "locales_module_header @ join newline (map (export_line dir) ls) @ newline \<noteq> []"
    by (simp add: newline_def)
  have empty_iff: "load b dir ls ns dflt locales_module_id = Some (Locales_module []) \<longleftrightarrow> b" for b
    using nonempty by (simp add: load_def)
  have lines: "sublist (export_line dir l)
      (locales_module_header @ join newline (map (export_line dir) ls) @ newline)"
    if "l \<in> set ls" for l
  proof -
    from that have "sublist (export_line dir l) (join newline (map (export_line dir) ls))"
      by (intro join_sublist) simp
    then show ?thesis
      by (rule sublist_in_context)
  qed
  have "load (configResolved cfg) dir ls ns dflt locales_module_id = Some (Locales_module []) \<longleftrightarrow>
      truthy (build_ssr cfg) \<or> \<not> isProduction cfg"
    by (simp only: empty_iff configResolved_def)
  moreover have "\<not> si \<longrightarrow>
      load si dir ls ns dflt locales_module_id =
        Some (Locales_module
                (locales_module_header @ join newline (map (export_line dir) ls) @ newline))"
    by (simp add: load_def)
  moreover have "\<forall>l \<in> set ls.
      sublist (''export {default as '' @ l @ ''} from '' @ quote @ localeFile dir l @ quote)
        (locales_module_header @ join newline (map (export_line dir) ls) @ newline)"
    using lines unfolding export_line_file by blast
  ultimately show ?thesis
    using empty_iff [of si] by blast
qed

text \<open>Both modes for two locales, and a production build with and without \<^verbatim>\<open>build.ssr\<close>.\<close>

lemma locales_module_text_example:
  "load True ''/i18n'' [''en'', ''nl''] [] (JStr ''en'') locales_module_id = Some (Locales_module []) \<and>
   load False ''/i18n'' [''en'', ''nl''] [] (JStr ''en'') locales_module_id =
     Some (Locales_module
            (locales_module_header @
             ''export {default as en} from '' @ quote @ ''/i18n/en.json'' @ quote @ newline @
             ''export {default as nl} from '' @ quote @ ''/i18n/nl.json'' @ quote @ newline)) \<and>
   sublist (''export {default as nl} from '' @ quote @ ''/i18n/nl.json'' @ quote)
     (locales_module_header @
      ''export {default as en} from '' @ quote @ ''/i18n/en.json'' @ quote @ newline @
      ''export {default as nl} from '' @ quote @ ''/i18n/nl.json'' @ quote @ newline) \<and>
   load (configResolved \<lparr>build_ssr = JBool False, isProduction = True\<rparr>)
     ''/i18n'' [''en'', ''nl''] [] (JStr ''en'') locales_module_id \<noteq> Some (Locales_module []) \<and>
   load (configResolved \<lparr>build_ssr = JStr ''src/entry.ssr.tsx'', isProduction = True\<rparr>)
     ''/i18n'' [''en'', ''nl''] [] (JStr ''en'') locales_module_id = Some (Locales_module [])"
proof -
  note inst = locales_module_text [where dir = "''/i18n''" and ls = "[''en'', ''nl'']" and ns = "[]"
      and dflt = "JStr ''en''"]
  have body: "locales_module_header @ join newline (map (export_line ''/i18n'') [''en'', ''nl'']) @ newline =
      locales_module_header @
      ''export {default as en} from '' @ quote @ ''/i18n/en.json'' @ quote @ newline @
      ''export {default as nl} from '' @ quote @ ''/i18n/nl.json'' @ quote @ newline"
    by (simp add: export_line_def)
  have line: "''export {default as '' @ ''nl'' @ ''} from '' @ quote @ localeFile ''/i18n'' ''nl'' @ quote =
      ''export {default as nl} from '' @ quote @ ''/i18n/nl.json'' @ quote"
    by (simp add: localeFile_def)
  have a: "load True ''/i18n'' [''en'', ''nl''] [] (JStr ''en'') locales_module_id = Some (Locales_module [])"
    using inst [where si = True] by blast
  have "load False ''/i18n'' [''en'', ''nl''] [] (JStr ''en'') locales_module_id =
      Some (Locales_module
             (locales_module_header @ join newline (map (export_line ''/i18n'') [''en'', ''nl'']) @ newline))"
    using inst [where si = False] by blast
  then have b: "load False ''/i18n'' [''en'', ''nl''] [] (JStr ''en'') locales_module_id =
     Some (Locales_module
            (locales_module_header @
             ''export {default as en} from '' @ quote @ ''/i18n/en.json'' @ quote @ newline @
             ''export {default as nl} from '' @ quote @ ''/i18n/nl.json'' @ quote @ newline))"
    by (simp only: body)
  have "sublist (''export {default as '' @ ''nl'' @ ''} from '' @ quote @ localeFile ''/i18n'' ''nl'' @ quote)
      (locales_module_header @ join newline (map (export_line ''/i18n'') [''en'', ''nl'']) @ newline)"
    using inst [where si = False, THEN conjunct2, THEN conjunct2, THEN conjunct2, rule_format, of "''nl''"]
    by simp
  then have c: "sublist (''export {default as nl} from '' @ quote @ ''/i18n/nl.json'' @ quote)
     (locales_module_header @
      ''export {default as en} from '' @ quote @ ''/i18n/en.json'' @ quote @ newline @
      ''export {default as nl} from '' @ quote @ ''/i18n/nl.json'' @ quote @ newline)"
    by (simp only: body line)
  have d: "load (configResolved \<lparr>build_ssr = JBool False, isProduction = True\<rparr>)
      ''/i18n'' [''en'', ''nl''] [] (JStr ''en'') locales_module_id \<noteq> Some (Locales_module [])"
    using inst [where cfg = "\<lparr>build_ssr = JBool False, isProduction = True\<rparr>", THEN conjunct1]
    by simp
  have e: "load (configResolved \<lparr>build_ssr = JStr ''src/entry.ssr.tsx'', isProduction = True\<rparr>)
      ''/i18n'' [''en'', ''nl''] [] (JStr ''en'') locales_module_id = Some (Locales_module [])"
    using inst [where cfg = "\<lparr>build_ssr = JStr ''src/entry.ssr.tsx'', isProduction = True\<rparr>", THEN conjunct1]
    by simp
  from a b c d e show ?thesis
    by (intro conjI)
qed

section \<open>Replacing the placeholder\<close>

lemma replace_all_Nil: "replace_all tok r [] = []"
  by (subst replace_all.simps) simp

lemma replace_all_hit:
  "tok \<noteq> [] \<Longrightarrow> prefix tok s \<Longrightarrow>
   replace_all tok r s = r @ replace_all tok r (drop (length tok) s)"
  by (subst replace_all.simps) auto

lemma replace_all_miss:
  "tok \<noteq> [] \<Longrightarrow> \<not> prefix tok (c # cs) \<Longrightarrow>
   replace_all tok r (c # cs) = c # replace_all tok r cs"
  by (subst replace_all.simps) simp

text \<open>A prefix of the output that avoids the first character of the replacement is a prefix of the input.\<close>

lemma replace_all_prefix:
  assumes "tok \<noteq> []" and "r \<noteq> []" and "hd r \<notin> set u" and "prefix u (replace_all tok r s)"
  shows "prefix u s"
  using assms(3,4)
proof (induction s arbitrary: u rule: length_induct)
  case (1 s)
  show ?case
  proof (cases s)
    case Nil
    with 1 show ?thesis by (simp add: replace_all_Nil)
  next
    case (Cons c cs)
    show ?thesis
    proof (cases "prefix tok s")
      case True
      with 1(3) assms(1) have "prefix u (r @ replace_all tok r (drop (length tok) s))"
        by (simp add: replace_all_hit)
      with assms(2) 1(2) have "u = []"
        by (cases u; cases r) auto
      then show ?thesis by simp
    next
      case False
      with 1(3) assms(1) Cons have out: "prefix u (c # replace_all tok r cs)"
        by (simp add: replace_all_miss)
      show ?thesis
      proof (cases u)
        case Nil
        then show ?thesis by simp
      next
        case (Cons x u')
        with out have x: "x = c" and rest: "prefix u' (replace_all tok r cs)" by simp_all
        from 1(2) Cons have "hd r \<notin> set u'" by simp
        with 1(1) rest \<open>s = c # cs\<close> have "prefix u' cs" by simp
        with x Cons \<open>s = c # cs\<close> show ?thesis by simp
      qed
    qed
  qed
qed

text \<open>No instance of the placeholder starts inside the string literal of a locale code.\<close>

lemma sublist_after_locale:
  assumes "locale_code_pattern l"
  shows "sublist locale_placeholder (js_string l @ xs) \<longleftrightarrow> sublist locale_placeholder xs"
proof -
  from assms consider a b where "l = [a, b]" | a b s c d where "l = [a, b, s, c, d]"
    by (auto simp: locale_code_pattern_def split: list.splits)
  then show ?thesis
  proof cases
    case 1
    then show ?thesis
      by (simp add: sublist_Cons_right locale_placeholder_def js_string_def)
  next
    case 2
    then show ?thesis
      by (simp add: sublist_Cons_right locale_placeholder_def js_string_def)
  qed
qed

lemma placeholder_replaced:
  assumes "locale_code_pattern l"
  shows "\<not> sublist locale_placeholder (replace_all locale_placeholder (js_string l) s)"
proof (induction s rule: length_induct)
  case (1 s)
  have tok: "locale_placeholder \<noteq> []" by (simp add: locale_placeholder_def)
  have r: "js_string l \<noteq> []" "hd (js_string l) \<notin> set locale_placeholder"
    by (simp_all add: js_string_def locale_placeholder_def)
  show ?case
  proof (cases s)
    case Nil
    then show ?thesis by (simp add: replace_all_Nil locale_placeholder_def)
  next
    case (Cons c cs)
    show ?thesis
    proof (cases "prefix locale_placeholder s")
      case True
      have "length (drop (length locale_placeholder) s) < length s"
        using Cons by (simp add: locale_placeholder_def)
      with 1 have "\<not> sublist locale_placeholder
          (replace_all locale_placeholder (js_string l) (drop (length locale_placeholder) s))"
        by blast
      with True tok show ?thesis
        by (simp add: replace_all_hit sublist_after_locale [OF assms])
    next
      case False
      from 1 Cons have "\<not> sublist locale_placeholder (replace_all locale_placeholder (js_string l) cs)"
        by simp
      moreover have "\<not> prefix locale_placeholder (replace_all locale_placeholder (js_string l) s)"
        using replace_all_prefix [OF tok r(1) r(2)] False by blast
      ultimately show ?thesis
        using False tok Cons by (simp add: replace_all_miss sublist_Cons_right)
    qed
  qed
qed

section \<open>The copies of the bundle\<close>

lemma lowercase_not_slash: "lowercase_letter a \<Longrightarrow> a \<noteq> CHR ''/''"
  by (auto simp: lowercase_letter_def)

lemma uppercase_not_slash: "uppercase_letter a \<Longrightarrow> a \<noteq> CHR ''/''"
  by (auto simp: uppercase_letter_def)

lemma pattern_no_slash:
  assumes "locale_code_pattern l"
  shows "CHR ''/'' \<notin> set l"
proof -
  from assms consider a b where "l = [a, b]" "lowercase_letter a" "lowercase_letter b"
    | a b s c d where "l = [a, b, s, c, d]" "lowercase_letter a" "lowercase_letter b"
        "s = CHR ''_'' \<or> s = CHR ''-''" "uppercase_letter c" "uppercase_letter d"
    by (auto simp: locale_code_pattern_def split: list.splits)
  then show ?thesis
  proof cases
    case 1
    then show ?thesis
      using lowercase_not_slash [of a] lowercase_not_slash [of b] by auto
  next
    case 2
    then show ?thesis
      using lowercase_not_slash [of a] lowercase_not_slash [of b]
        uppercase_not_slash [of c] uppercase_not_slash [of d] by auto
  qed
qed

lemma locale_path_inj:
  assumes "CHR ''/'' \<notin> set a" and "CHR ''/'' \<notin> set b"
  shows "a @ CHR ''/'' # x = b @ CHR ''/'' # y \<longleftrightarrow> a = b \<and> x = y"
  using assms
proof (induction a arbitrary: b)
  case Nil
  then show ?case by (cases b) auto
next
  case (Cons c cs)
  then show ?case by (cases b) auto
qed

lemma fileName_emit_copy: "fileName (emit_copy trs l e) = l @ ''/'' @ fst e"
  by (simp add: emit_copy_def split: output_file.splits)

lemma source_emit_copy:
  "source (emit_copy trs l (f, c)) =
     (case c of Chunk code \<Rightarrow> replaceGlobals code l trs | Asset src \<Rightarrow> src)"
  by (simp add: emit_copy_def split: output_file.splits)

lemma emit_copy_eq:
  "emit_copy trs l (f, c) =
     \<lparr>fileName = l @ ''/'' @ f,
      source = (case c of Chunk code \<Rightarrow> replaceGlobals code l trs | Asset src \<Rightarrow> src)\<rparr>"
  by (simp add: emit_copy_def split: output_file.splits)

text \<open>The copies made for one locale, looked up by path.\<close>

lemma copies_of_locale:
  assumes "CHR ''/'' \<notin> set l" and "CHR ''/'' \<notin> set l'" and "distinct (map fst files)"
    and "(f, c) \<in> set files"
  shows "filter (\<lambda>e. fileName e = l @ ''/'' @ f) (map (emit_copy trs l') files) =
           (if l' = l then [emit_copy trs l (f, c)] else [])"
  using assms(3,4)
proof (induction files)
  case Nil
  then show ?case by simp
next
  case (Cons e es)
  obtain f' c' where e: "e = (f', c')" by (cases e)
  have path: "fileName (emit_copy trs l' x) = l @ CHR ''/'' # f \<longleftrightarrow> l' = l \<and> fst x = f" for x
    using locale_path_inj [OF assms(2) assms(1)] by (simp add: fileName_emit_copy)
  show ?case
  proof (cases "(f, c) \<in> set es")
    case True
    with Cons.prems e have "f' \<noteq> f" by (auto simp: image_iff)
    with Cons True e show ?thesis by (simp add: path)
  next
    case False
    with Cons.prems e have same: "f' = f" "c' = c" by auto
    from Cons.prems e same have "f \<notin> fst ` set es" by simp
    then have "filter (\<lambda>e. fileName e = l @ ''/'' @ f) (map (emit_copy trs l') es) = []"
      by (auto simp: filter_empty_conv path image_iff)
    with e same show ?thesis by (cases "l' = l") (simp_all add: path fileName_emit_copy)
  qed
qed

lemma copies_of_path:
  assumes "\<forall>x \<in> set ls. CHR ''/'' \<notin> set x" and "distinct ls" and "distinct (map fst files)"
    and "l \<in> set ls" and "(f, c) \<in> set files"
  shows "filter (\<lambda>e. fileName e = l @ ''/'' @ f)
           (concat (map (\<lambda>x. map (emit_copy trs x) files) ls)) = [emit_copy trs l (f, c)]"
  using assms(1,2,4)
proof (induction ls)
  case Nil
  then show ?case by simp
next
  case (Cons x xs)
  from Cons.prems assms(1,4) have l: "CHR ''/'' \<notin> set l" and x: "CHR ''/'' \<notin> set x"
    by auto
  note head = copies_of_locale [OF l x assms(3) assms(5), of trs]
  show ?case
  proof (cases "x = l")
    case True
    with Cons.prems have "l \<notin> set xs" by simp
    have "filter (\<lambda>e. fileName e = l @ ''/'' @ f)
            (concat (map (\<lambda>x. map (emit_copy trs x) files) xs)) = []"
    proof -
      have "filter (\<lambda>e. fileName e = l @ ''/'' @ f) (map (emit_copy trs y) files) = []"
        if "y \<in> set xs" for y
      proof -
        from that Cons.prems have "CHR ''/'' \<notin> set y" by simp
        from copies_of_locale [OF l this assms(3) assms(5), of trs] that \<open>l \<notin> set xs\<close>
        show ?thesis by auto
      qed
      then show ?thesis
        by (induction xs) simp_all
    qed
    with head True show ?thesis by simp
  next
    case False
    with Cons.prems have "l \<in> set xs" by simp
    with Cons have "filter (\<lambda>e. fileName e = l @ ''/'' @ f)
        (concat (map (\<lambda>x. map (emit_copy trs x) files) xs)) = [emit_copy trs l (f, c)]"
      by simp
    with head False show ?thesis by simp
  qed
qed

lemma length_copies:
  "length (concat (map (\<lambda>x. map (emit_copy trs x) files) ls)) = length ls * length files"
  by (induction ls) simp_all

lemma emit_locales_fixed:
  assumes "\<forall>emitted. entries emitted = files"
  shows "emit_locales entries trs ls em = em @ concat (map (\<lambda>x. map (emit_copy trs x) files) ls)"
  using assms by (induction ls arbitrary: em) simp_all

lemma example_replaced:
  "replaceGlobals ''const l = __$LOCALE$__; t(__$LOCALE$__)'' ''en'' [] =
     ''const l = '' @ js_string ''en'' @ ''; t('' @ js_string ''en'' @ '')''"
  by code_simp

text \<open>
  Were the listing of the bundle the same at every reading, the hook would emit one copy for
  each locale and each file: for distinct locales with the pattern of a locale code and a
  bundle that names each file once, the number of emitted files is the number of locales
  times the number of files, and the emitted files at the path of a locale and a file are
  exactly the one copy, a chunk with the placeholder replaced, an asset verbatim.
\<close>

lemma copies_of_unchanging_listing:
  assumes "\<forall>l \<in> set ls. locale_code_pattern l" and "distinct ls"
    and "distinct (map fst files)" and "\<forall>emitted. entries emitted = files"
  shows "generateBundle False ls trs entries = [] \<and>
         length (generateBundle True ls trs entries) = length ls * length files \<and>
         (\<forall>l \<in> set ls. \<forall>(f, c) \<in> set files.
            filter (\<lambda>e. fileName e = l @ ''/'' @ f) (generateBundle True ls trs entries) =
              [\<lparr>fileName = l @ ''/'' @ f,
                source = (case c of Chunk code \<Rightarrow> replaceGlobals code l trs | Asset src \<Rightarrow> src)\<rparr>] \<and>
            (\<forall>code. c = Chunk code \<longrightarrow>
               \<not> sublist locale_placeholder (replaceGlobals code l trs)))"
proof -
  from assms(1) have slash: "\<forall>x \<in> set ls. CHR ''/'' \<notin> set x"
    using pattern_no_slash by blast
  have emitted: "generateBundle True ls trs entries =
      concat (map (\<lambda>x. map (emit_copy trs x) files) ls)"
    using emit_locales_fixed [OF assms(4), of trs ls "[]"] by (simp add: generateBundle_def)
  have "filter (\<lambda>e. fileName e = l @ ''/'' @ f) (generateBundle True ls trs entries) =
          [\<lparr>fileName = l @ ''/'' @ f,
            source = (case c of Chunk code \<Rightarrow> replaceGlobals code l trs | Asset src \<Rightarrow> src)\<rparr>]"
    if "l \<in> set ls" and "(f, c) \<in> set files" for l f c
    using copies_of_path [OF slash assms(2) assms(3) that, of trs]
    by (simp add: emitted emit_copy_eq)
  moreover have "\<not> sublist locale_placeholder (replaceGlobals code l trs)"
    if "l \<in> set ls" for l code
    using that assms(1) by (simp add: replaceGlobals_def placeholder_replaced)
  moreover have "generateBundle False ls trs entries = []"
    by (simp add: generateBundle_def)
  ultimately show ?thesis
    by (auto simp: emitted length_copies)
qed

text \<open>Two locales, one chunk and one asset.\<close>

lemma copies_of_unchanging_listing_example:
  "generateBundle False [''en'', ''nl''] [] (\<lambda>emitted. example_bundle) = [] \<and>
   length (generateBundle True [''en'', ''nl''] [] (\<lambda>emitted. example_bundle)) = 4 \<and>
   filter (\<lambda>e. fileName e = ''en/assets/app.js'')
     (generateBundle True [''en'', ''nl''] [] (\<lambda>emitted. example_bundle)) =
     [\<lparr>fileName = ''en/assets/app.js'',
       source = ''const l = '' @ js_string ''en'' @ ''; t('' @ js_string ''en'' @ '')''\<rparr>] \<and>
   \<not> sublist locale_placeholder
       (''const l = '' @ js_string ''en'' @ ''; t('' @ js_string ''en'' @ '')'') \<and>
   filter (\<lambda>e. fileName e = ''nl/logo.svg'')
     (generateBundle True [''en'', ''nl''] [] (\<lambda>emitted. example_bundle)) =
     [\<lparr>fileName = ''nl/logo.svg'', source = ''<svg/>''\<rparr>]"
proof -
  have valid: "\<forall>l \<in> set [''en'', ''nl'']. locale_code_pattern l"
    by (simp add: locale_code_pattern_def lowercase_letter_def)
  have locales: "distinct [''en'', ''nl'']" by simp
  have names: "distinct (map fst example_bundle)"
    by (simp add: example_bundle_def)
  have view: "\<forall>emitted. (\<lambda>emitted. example_bundle) emitted = example_bundle" by simp
  note inst = copies_of_unchanging_listing [OF valid locales names view, of "[]"]
  from inst have a: "generateBundle False [''en'', ''nl''] [] (\<lambda>emitted. example_bundle) = []"
    by (rule conjunct1)
  from inst have b: "length (generateBundle True [''en'', ''nl''] [] (\<lambda>emitted. example_bundle)) = 4"
    by (simp add: example_bundle_def)
  note copies = inst [THEN conjunct2, THEN conjunct2, rule_format]
  have c: "filter (\<lambda>e. fileName e = ''en/assets/app.js'')
     (generateBundle True [''en'', ''nl''] [] (\<lambda>emitted. example_bundle)) =
     [\<lparr>fileName = ''en/assets/app.js'',
       source = ''const l = '' @ js_string ''en'' @ ''; t('' @ js_string ''en'' @ '')''\<rparr>]"
    and d: "\<not> sublist locale_placeholder
       (''const l = '' @ js_string ''en'' @ ''; t('' @ js_string ''en'' @ '')'')"
    using copies [of "''en''" "(''assets/app.js'', Chunk ''const l = __$LOCALE$__; t(__$LOCALE$__)'')"]
    by (simp_all add: example_replaced example_bundle_def)
  have e: "filter (\<lambda>e. fileName e = ''nl/logo.svg'')
     (generateBundle True [''en'', ''nl''] [] (\<lambda>emitted. example_bundle)) =
     [\<lparr>fileName = ''nl/logo.svg'', source = ''<svg/>''\<rparr>]"
    using copies [of "''nl''" "(''logo.svg'', Asset ''<svg/>'')"]
    by (simp add: example_bundle_def)
  from a b c d e show ?thesis by (intro conjI)
qed

text \<open>
  On the host's bundle a single locale gets its copies, and every further locale gets the
  copies of the earlier locales copied again.
\<close>

lemma one_locale_on_host:
  "generateBundle True [l] trs (host_entries files) = map (emit_copy trs l) files"
  by (simp add: generateBundle_def host_entries_def)

lemma three_locales_on_host:
  "map fileName (generateBundle True [''en'', ''nl'', ''fr''] []
     (host_entries [(''app.js'', Chunk c)])) =
     [''en/app.js'', ''nl/app.js'', ''nl/en/app.js'',
      ''fr/app.js'', ''fr/en/app.js'', ''fr/nl/app.js'', ''fr/nl/en/app.js'']"
  by (simp add: generateBundle_def host_entries_def emit_copy_def)

section \<open>What the checks do catch\<close>

text \<open>A cycle of two locales is reported when the second one is processed.\<close>

lemma buildStart_two_cycle_reported:
  "buildStart ''/i18n'' [''en'', ''nl''] []
     [''/i18n/en.json'' \<mapsto>
        Json (JObj [(''locale'', JStr ''en''), (''name'', JStr ''English''),
                    (''fallback'', JStr ''nl''), (''translations'', JObj [])]),
      ''/i18n/nl.json'' \<mapsto>
        Json (JObj [(''locale'', JStr ''nl''), (''name'', JStr ''Nederlands''),
                    (''fallback'', JStr ''en''), (''translations'', JObj [])])]
   = Some ([''/i18n/en.json'' \<mapsto>
              Json (JObj [(''locale'', JStr ''en''), (''name'', JStr ''English''),
                          (''fallback'', JStr ''nl''), (''translations'', JObj [])]),
            ''/i18n/nl.json'' \<mapsto>
              Json (JObj [(''locale'', JStr ''nl''), (''name'', JStr ''Nederlands''),
                          (''fallback'', JStr ''en''), (''translations'', JObj [])])],
           Inl (Circular_fallback ''/i18n/nl.json'' ''en''))"
  by (simp add: build_eval rx_en rx_nl)

text \<open>
  The check of the state module passes exactly the names whose entry in the locale names is
  truthy: a name that is neither a key of the locale names nor inherited by every object is
  refused, by the setter and by a registered getter.
\<close>

lemma checkLocale_passes: "checkLocale ns l = Inr () \<longleftrightarrow> truthy (obj_get ns l)"
  by (simp add: checkLocale_def)

lemma obj_get_unknown:
  "map_of ns l = None \<Longrightarrow> l \<notin> set object_prototype_names \<Longrightarrow> obj_get ns l = JUndefined"
  by (simp add: obj_get_def)

lemma setDefaultLocale_unknown:
  assumes "map_of (names m) l = None" and "l \<notin> set object_prototype_names"
  shows "setDefaultLocale l m = Inl (TypeError (''unknown locale '' @ l))"
  using obj_get_unknown [OF assms] by (simp add: setDefaultLocale_def checkLocale_def)

lemma setDefaultLocale_known:
  assumes "map_of (names m) l = Some n" and "truthy n"
  shows "setDefaultLocale l m = Inr (m\<lparr>defaultLocale := l\<rparr>)"
  using assms by (simp add: setDefaultLocale_def checkLocale_def obj_get_def)

lemma getLocale_unknown:
  assumes "map_of (names m) l = None" and "l \<notin> set object_prototype_names" and "l \<noteq> []"
  shows "getLocale (setLocaleGetter (Some l) m) = Inl (TypeError (''unknown locale '' @ l))"
  using obj_get_unknown [OF assms(1,2)] assms(3)
  by (simp add: getLocale_def setLocaleGetter_def checkLocale_def or_default_def)

section \<open>The claims\<close>

text \<open>
  Claim C1: every fallback cycle, a self-fallback included, is a fatal error that names the
  file, and every acyclic configuration builds. The code does not do this. With the single
  locale \<open>en\<close> whose file names \<open>en\<close> as its own fallback, the walk finds
  \<^verbatim>\<open>fallbacks["en"]\<close> still unset and leaves; the build succeeds with the cycle from
  \<open>en\<close> to \<open>en\<close> recorded.
\<close>

theorem buildStart_self_fallback_accepted:
  "buildStart ''/i18n'' [''en''] []
     [''/i18n/en.json'' \<mapsto>
        Json (JObj [(''locale'', JStr ''en''), (''name'', JStr ''English''),
                    (''fallback'', JStr ''en''), (''translations'', JObj [])])]
   = Some ([''/i18n/en.json'' \<mapsto>
              Json (JObj [(''locale'', JStr ''en''), (''name'', JStr ''English''),
                          (''fallback'', JStr ''en''), (''translations'', JObj [])])],
           Inr \<lparr>fallbacks = [(''en'', JStr ''en'')],
                localeNames = [(''en'', JStr ''English'')],
                translation_records =
                  [(''en'', JObj [(''locale'', JStr ''en''), (''name'', JStr ''English''),
                                  (''fallback'', JStr ''en''), (''translations'', JObj [])])],
                pluralKeys = {}\<rparr>)"
  by (simp add: build_eval rx_en)

text \<open>
  Claim C2: the walk over the fallbacks terminates for every locale list and every
  directory, whatever the order of the locales. The code does not do this. With the locales
  \<open>en\<close>, \<open>nl\<close>, \<open>fr\<close> in this order, \<open>nl\<close> falling back to \<open>en\<close> and \<open>fr\<close> to \<open>nl\<close>
  (no cycle), the walk for \<open>fr\<close> reads \<^verbatim>\<open>fallbacks["nl"]\<close>, which is \<open>en\<close>: truthy and not
  \<open>fr\<close>, on every round. The build neither returns nor throws.
\<close>

theorem buildStart_chain_diverges:
  "buildStart ''/i18n'' [''en'', ''nl'', ''fr''] []
     [''/i18n/en.json'' \<mapsto>
        Json (JObj [(''locale'', JStr ''en''), (''name'', JStr ''English''),
                    (''translations'', JObj [])]),
      ''/i18n/nl.json'' \<mapsto>
        Json (JObj [(''locale'', JStr ''nl''), (''name'', JStr ''Nederlands''),
                    (''fallback'', JStr ''en''), (''translations'', JObj [])]),
      ''/i18n/fr.json'' \<mapsto>
        Json (JObj [(''locale'', JStr ''fr''), (''name'', JStr ''Francais''),
                    (''fallback'', JStr ''nl''), (''translations'', JObj [])])]
   = None"
  by (simp add: build_eval rx_en rx_nl rx_fr)

text \<open>
  Claim C3: when \<^verbatim>\<open>shouldInline\<close> is true the bundle hook emits, for each configured locale
  and each file of the finished bundle, exactly one copy at the path
  \<^verbatim>\<open><locale>/<fileName>\<close>, and nothing when it is false. The code does not do this. It reads
  \<^verbatim>\<open>Object.entries(bundle)\<close> inside the loop over the locales (line 189), and the host has
  by then added the copies emitted for the earlier locales to the bundle. With the locales
  \<open>en\<close> and \<open>nl\<close> and a bundle of the one chunk \<open>app.js\<close>, the hook emits three files and
  not two: the round for \<open>nl\<close> finds \<open>en/app.js\<close> in the bundle and copies it, as an asset,
  to \<open>nl/en/app.js\<close>, which is the copy of no file of the finished bundle and carries the
  code stamped with \<open>en\<close>.
\<close>

theorem generateBundle_recopies_emitted:
  "generateBundle True [''en'', ''nl''] []
     (host_entries [(''app.js'', Chunk ''export default __$LOCALE$__'')]) =
     [\<lparr>fileName = ''en/app.js'',
       source = replaceGlobals ''export default __$LOCALE$__'' ''en'' []\<rparr>,
      \<lparr>fileName = ''nl/app.js'',
       source = replaceGlobals ''export default __$LOCALE$__'' ''nl'' []\<rparr>,
      \<lparr>fileName = ''nl/en/app.js'',
       source = replaceGlobals ''export default __$LOCALE$__'' ''en'' []\<rparr>]"
  by (simp add: generateBundle_def host_entries_def emit_copy_def)

text \<open>
  Claim C4: after a build that succeeds, a key is among the plural keys exactly when its
  value is an object in the translations of at least one configured locale, and the plural
  keys do not depend on the order in which the locales are processed: any build of the same
  directory over the same locales, in whatever order, that succeeds has the same plural
  keys.
\<close>

theorem pluralKeys_any_locale:
  assumes build: "buildStart dir ls ns d = Some (d', Inr v)"
  shows "(k \<in> pluralKeys v \<longleftrightarrow>
            (\<exists>l \<in> set ls. \<exists>data. map_of (translation_records v) l = Some (JObj data) \<and>
                                 plural_in data k)) \<and>
         (\<forall>ls2 d2 v2. set ls2 = set ls \<and> buildStart dir ls2 ns d = Some (d2, Inr v2) \<longrightarrow>
            pluralKeys v2 = pluralKeys v)"
proof -
  note run = build [unfolded buildStart_def]
  have keys: "pluralKeys v = {k. \<exists>l \<in> set ls. plural_in (loaded_record dir d l) k}"
    using for_locales_records(2) [OF run] by simp
  have recs: "\<And>l. l \<in> set ls \<Longrightarrow>
      map_of (translation_records v) l = Some (JObj (loaded_record dir d l))"
    using for_locales_records(1) [OF run] by simp
  have "k \<in> pluralKeys v \<longleftrightarrow>
      (\<exists>l \<in> set ls. \<exists>data. map_of (translation_records v) l = Some (JObj data) \<and>
                           plural_in data k)"
    using recs by (auto simp: keys)
  moreover have "pluralKeys v2 = pluralKeys v"
    if "set ls2 = set ls \<and> buildStart dir ls2 ns d = Some (d2, Inr v2)" for ls2 d2 v2
  proof -
    from that have "for_locales dir ls2 ls2 d
        \<lparr>fallbacks = [], localeNames = ns, translation_records = [], pluralKeys = {}\<rparr> =
        Some (d2, Inr v2)"
      by (simp add: buildStart_def)
    from for_locales_records(2) [OF this] that show ?thesis
      by (simp add: keys)
  qed
  ultimately show ?thesis by blast
qed

text \<open>The example directory, built in both orders.\<close>

theorem pluralKeys_any_locale_witness:
  "\<exists>d1 v1 d2 v2.
     buildStart ''/i18n'' [''en'', ''nl''] [] example_disk = Some (d1, Inr v1) \<and>
     buildStart ''/i18n'' [''nl'', ''en''] [] example_disk = Some (d2, Inr v2) \<and>
     map_of (translation_records v1) ''en'' = Some example_en_loaded \<and>
     map_of (translation_records v1) ''nl'' = Some example_nl \<and>
     ''items'' \<in> pluralKeys v1 \<and> ''hello'' \<notin> pluralKeys v1 \<and>
     pluralKeys v2 = pluralKeys v1"
proof -
  note iff = pluralKeys_any_locale [OF example_build_en_nl]
  have "plural_in
      [(''locale'', JStr ''nl''), (''name'', JStr ''Nederlands''), (''fallback'', JStr ''en''),
       (''translations'',
        JObj [(''hello'', JStr ''Hallo''),
              (''items'', JObj [(''one'', JStr ''ding''), (''other'', JStr ''dingen'')])])]
      ''items''"
    by (simp add: plural_in_def obj_get_def)
  with iff [of "''items''"] have items: "''items'' \<in> pluralKeys
      \<lparr>fallbacks = [(''nl'', JStr ''en'')],
       localeNames = [(''en'', JStr ''en''), (''nl'', JStr ''Nederlands'')],
       translation_records = [(''en'', example_en_loaded), (''nl'', example_nl)],
       pluralKeys = {''items''}\<rparr>"
    by (simp add: example_nl_def)
  from iff [of "''hello''"] have hello: "''hello'' \<notin> pluralKeys
      \<lparr>fallbacks = [(''nl'', JStr ''en'')],
       localeNames = [(''en'', JStr ''en''), (''nl'', JStr ''Nederlands'')],
       translation_records = [(''en'', example_en_loaded), (''nl'', example_nl)],
       pluralKeys = {''items''}\<rparr>"
    by simp
  from iff [of "''items''", THEN conjunct2, rule_format, of "[''nl'', ''en'']", OF conjI, OF _ example_build_nl_en]
  have "pluralKeys
      \<lparr>fallbacks = [(''nl'', JStr ''en'')],
       localeNames = [(''nl'', JStr ''Nederlands''), (''en'', JStr ''en'')],
       translation_records = [(''nl'', example_nl), (''en'', example_en_loaded)],
       pluralKeys = {''items''}\<rparr> =
     pluralKeys
      \<lparr>fallbacks = [(''nl'', JStr ''en'')],
       localeNames = [(''en'', JStr ''en''), (''nl'', JStr ''Nederlands'')],
       translation_records = [(''en'', example_en_loaded), (''nl'', example_nl)],
       pluralKeys = {''items''}\<rparr>"
    by auto
  with items hello show ?thesis
    using example_build_en_nl example_build_nl_en by simp
qed

text \<open>
  Claim C5: a configured locale is accepted exactly when it matches
  \<^verbatim>\<open>^[a-z]{2}([_-][A-Z]{2})?$\<close>, and any other fails the build with an error naming it.
  The regular expression of line 62 matches a string exactly when it has the pattern (two
  lowercase letters, optionally an underscore or hyphen and two uppercase letters). When the
  loop of the build start hook comes to a locale without the pattern it throws the error
  that names this locale, whatever the state and the directory, and writes nothing; a
  locale with the pattern is never the one an invalid-locale error names; and a build that
  succeeds has only locales with the pattern.
\<close>

theorem locale_code_validation:
  "(rx_test locale_rx l \<longleftrightarrow> locale_code_pattern l) \<and>
   (\<not> locale_code_pattern l \<longrightarrow>
      for_locales dir ls (l # rest) d v = Some (d, Inl (Invalid_locale l))) \<and>
   (locale_code_pattern l \<longrightarrow>
      buildStart dir ls ns d \<noteq> Some (d', Inl (Invalid_locale l))) \<and>
   (buildStart dir ls ns d = Some (d', Inr v') \<longrightarrow> (\<forall>x \<in> set ls. locale_code_pattern x))"
proof (intro conjI impI)
  show "rx_test locale_rx l \<longleftrightarrow> locale_code_pattern l"
    by (simp add: rx_test_def rx_exec_locale)
next
  assume "\<not> locale_code_pattern l"
  then show "for_locales dir ls (l # rest) d v = Some (d, Inl (Invalid_locale l))"
    by (simp add: buildStart_locale_rejects)
next
  assume "locale_code_pattern l"
  then show "buildStart dir ls ns d \<noteq> Some (d', Inl (Invalid_locale l))"
    unfolding buildStart_def using for_locales_invalid by blast
next
  assume "buildStart dir ls ns d = Some (d', Inr v')"
  then show "\<forall>x \<in> set ls. locale_code_pattern x"
    unfolding buildStart_def by (rule for_locales_accepts)
qed

text \<open>An accepted code, a rejected one, and builds of the example directory.\<close>

theorem locale_code_validation_witness:
  "rx_test locale_rx ''en_US'' \<and> locale_code_pattern ''en_US'' \<and> \<not> locale_code_pattern ''EN'' \<and>
   for_locales ''/i18n'' [''en'', ''EN''] [''EN''] example_disk
     \<lparr>fallbacks = [], localeNames = [(''en'', JStr ''en'')],
      translation_records = [(''en'', example_en_loaded)], pluralKeys = {}\<rparr> =
     Some (example_disk, Inl (Invalid_locale ''EN'')) \<and>
   buildStart ''/i18n'' [''en'', ''nl''] [] example_disk \<noteq>
     Some (example_disk, Inl (Invalid_locale ''nl'')) \<and>
   locale_code_pattern ''fr_CA''"
proof -
  have accepted: "locale_code_pattern ''en_US''" and rejected: "\<not> locale_code_pattern ''EN''"
    and nl: "locale_code_pattern ''nl''"
    by (simp_all add: locale_code_pattern_def lowercase_letter_def uppercase_letter_def)
  note matches = locale_code_validation [where l = "''en_US''", THEN conjunct1]
  note throws = locale_code_validation
    [where l = "''EN''" and dir = "''/i18n''" and ls = "[''en'', ''EN'']" and rest = "[]"
       and d = example_disk
       and v = "\<lparr>fallbacks = [], localeNames = [(''en'', JStr ''en'')],
                 translation_records = [(''en'', example_en_loaded)], pluralKeys = {}\<rparr>",
     THEN conjunct2, THEN conjunct1, rule_format, OF rejected]
  note unnamed = locale_code_validation
    [where l = "''nl''" and dir = "''/i18n''" and ls = "[''en'', ''nl'']" and ns = "[]"
       and d = example_disk and d' = example_disk,
     THEN conjunct2, THEN conjunct2, THEN conjunct1, rule_format, OF nl]
  note built = locale_code_validation
    [THEN conjunct2, THEN conjunct2, THEN conjunct2, rule_format, OF example_build,
     of "''fr_CA''"]
  have fr: "locale_code_pattern ''fr_CA''"
    by (rule built) simp
  from matches accepted have "rx_test locale_rx ''en_US''"
    by (simp only:)
  with accepted rejected throws unnamed fr show ?thesis
    by (intro conjI)
qed

text \<open>
  Claim C6: the locales module is empty exactly when \<^verbatim>\<open>shouldInline\<close> is true, and
  otherwise it is a module that re-exports the record of every configured locale under its
  locale code. The code does not do this. It writes the locale code bare after
  \<^verbatim>\<open>default as\<close> (line 120), where the grammar wants an identifier name (or a quoted
  string). The check of line 62 accepts the code \<open>en-US\<close>, which is no identifier name
  because of its hyphen (\<open>en_US\<close> is one): for the locale \<open>en-US\<close> the text returned is
  \<^verbatim>\<open>export {default as en-US} from '/i18n/en-US.json'\<close>, which is not a module and
  re-exports nothing.
\<close>

theorem locales_module_hyphen_not_identifier:
  "rx_test locale_rx ''en-US'' \<and>
   load False ''/i18n'' [''en-US''] [] (JStr ''en-US'') locales_module_id =
     Some (Locales_module
            (locales_module_header @
             ''export {default as en-US} from '' @ quote @ ''/i18n/en-US.json'' @ quote @
             newline)) \<and>
   \<not> js_identifier ''en-US'' \<and> js_identifier ''en_US''"
proof (intro conjI)
  show "rx_test locale_rx ''en-US''"
    by (simp add: rx_test_def rx_exec_locale locale_code_pattern_def lowercase_letter_def
          uppercase_letter_def)
  show "load False ''/i18n'' [''en-US''] [] (JStr ''en-US'') locales_module_id =
     Some (Locales_module
            (locales_module_header @
             ''export {default as en-US} from '' @ quote @ ''/i18n/en-US.json'' @ quote @
             newline))"
    by (simp add: load_def export_line_def)
  show "\<not> js_identifier ''en-US''"
    by (simp add: js_identifier_def js_identifier_start_def in_range_def char_code_def)
  show "js_identifier ''en_US''"
    by (simp add: js_identifier_def js_identifier_start_def in_range_def char_code_def)
qed

text \<open>
  Claim C7: for a configured locale without a file, a build that succeeds has written the
  default record (the locale, the name \<^verbatim>\<open><lang> (<REGION>)\<close> or \<^verbatim>\<open><lang>\<close>, no translations)
  to the locale's file and holds it as the locale's record; a following build of the
  directory as the first one left it succeeds, writes nothing and holds the same records.
\<close>

theorem default_record_roundtrip:
  assumes build: "buildStart dir ls ns d = Some (d', Inr v)"
    and l: "l \<in> set ls"
    and absent: "d (localeFile dir l) = None"
  shows "d' (localeFile dir l) =
           Some (Json (JObj [(''locale'', JStr l),
                             (''name'', JStr (if length l = 2 then l
                                              else take 2 l @ '' ('' @ drop 3 l @ '')'')),
                             (''translations'', JObj [])])) \<and>
         map_of (translation_records v) l =
           Some (JObj [(''locale'', JStr l),
                       (''name'', JStr (if length l = 2 then l
                                        else take 2 l @ '' ('' @ drop 3 l @ '')'')),
                       (''translations'', JObj [])]) \<and>
         buildStart dir ls ns d' = Some (d', Inr v)"
proof -
  note run = build [unfolded buildStart_def]
  have pat: "locale_code_pattern l"
    using for_locales_accepts [OF run] l by blast
  have synth: "default_record l (locale_groups l) =
      [(''locale'', JStr l),
       (''name'', JStr (if length l = 2 then l else take 2 l @ '' ('' @ drop 3 l @ '')'')),
       (''translations'', JObj [])]"
    by (simp only: default_record_def default_name_groups [OF pat])
  have "d' (localeFile dir l) \<noteq> None"
    using run l by (rule for_locales_exists)
  with for_locales_disk [OF run, of "localeFile dir l"] absent
  have written: "d' (localeFile dir l) = Some (Json (JObj (default_record l (locale_groups l))))"
    by (auto simp: localeFile_inj)
  have held: "map_of (translation_records v) l = Some (JObj (default_record l (locale_groups l)))"
    using for_locales_records(1) [OF run, of l] l absent by (simp add: loaded_record_def)
  have again: "buildStart dir ls ns d' = Some (d', Inr v)"
    unfolding buildStart_def using run by (rule for_locales_rerun) simp
  from written held again show ?thesis
    by (simp only: synth)
qed

text \<open>The example directory with the locale \<open>fr_CA\<close>, which has no file.\<close>

theorem default_record_roundtrip_witness:
  "\<exists>d' v. buildStart ''/i18n'' [''en'', ''nl'', ''fr_CA''] [] example_disk = Some (d', Inr v) \<and>
     d' ''/i18n/fr_CA.json'' =
       Some (Json (JObj [(''locale'', JStr ''fr_CA''), (''name'', JStr ''fr (CA)''),
                         (''translations'', JObj [])])) \<and>
     map_of (translation_records v) ''fr_CA'' =
       Some (JObj [(''locale'', JStr ''fr_CA''), (''name'', JStr ''fr (CA)''),
                   (''translations'', JObj [])]) \<and>
     buildStart ''/i18n'' [''en'', ''nl'', ''fr_CA''] [] d' = Some (d', Inr v)"
proof -
  have "example_disk (localeFile ''/i18n'' ''fr_CA'') = None"
    by (simp add: example_disk_def localeFile_def)
  from default_record_roundtrip [OF example_build _ this] example_build
  show ?thesis by simp
qed

text \<open>
  Claim C8: \<^verbatim>\<open>setDefaultLocale\<close> with a locale that is not in the locale names, and
  \<^verbatim>\<open>getLocale\<close> when the registered function yields such a locale, raise a type error. The
  code does not do this for the names every object inherits: with the locale names
  \<open>{en: English}\<close>, \<^verbatim>\<open>localeNames["constructor"]\<close> is the inherited constructor, which is
  truthy, so \<^verbatim>\<open>setDefaultLocale("constructor")\<close> passes the check and is stored as the
  default locale.
\<close>

theorem setDefaultLocale_inherited_name_accepted:
  "setDefaultLocale ''constructor''
     \<lparr>names = [(''en'', JStr ''English'')], defaultLocale = ''en'', currentLocale = ''en'',
      getLocale_fn = Initial_getter\<rparr>
   = Inr \<lparr>names = [(''en'', JStr ''English'')], defaultLocale = ''constructor'',
          currentLocale = ''en'', getLocale_fn = Initial_getter\<rparr>"
  by (simp add: setDefaultLocale_def checkLocale_def obj_get_def object_prototype_names_def)

text \<open>
  Claim C9: the transform hook returns null when \<^verbatim>\<open>shouldInline\<close> is false or the module
  id has no recognised source-file extension, and calls the transform engine only when
  \<^verbatim>\<open>shouldInline\<close> is true and the id has one. The regular expression of line 178 finds a
  match in an id exactly when the id has a dot and one of \<open>cjs\<close>, \<open>js\<close>, \<open>mjs\<close>, \<open>ts\<close>,
  \<open>jsx\<close>, \<open>tsx\<close> at its end or right before a question mark.
\<close>

theorem transform_gate:
  "(rx_test source_ext_rx ident \<longleftrightarrow> has_source_extension ident) \<and>
   (\<not> si \<or> \<not> has_source_extension ident \<longrightarrow> transform si pks bp code ident = Null) \<and>
   (si \<and> has_source_extension ident \<longrightarrow>
      transform si pks bp code ident = TransformLocalize ident code pks bp)"
proof (intro conjI impI)
  show "rx_test source_ext_rx ident \<longleftrightarrow> has_source_extension ident"
    by (rule rx_test_source_ext)
next
  assume "\<not> si \<or> \<not> has_source_extension ident"
  then have "\<not> si \<or> \<not> rx_test source_ext_rx ident"
    by (simp only: rx_test_source_ext)
  then show "transform si pks bp code ident = Null"
    by (simp add: transform_def)
next
  assume "si \<and> has_source_extension ident"
  then have "si \<and> rx_test source_ext_rx ident"
    by (simp only: rx_test_source_ext)
  then show "transform si pks bp code ident = TransformLocalize ident code pks bp"
    by (simp add: transform_def)
qed

text \<open>A source module with a query, and a style sheet.\<close>

theorem transform_gate_witness:
  "has_source_extension ''src/app.tsx?v=1'' \<and>
   transform True {''items''} () ''t`hello`'' ''src/app.tsx?v=1'' =
     TransformLocalize ''src/app.tsx?v=1'' ''t`hello`'' {''items''} () \<and>
   \<not> has_source_extension ''src/style.css'' \<and>
   transform True {''items''} () ''a{}'' ''src/style.css'' = Null \<and>
   transform False {''items''} () ''t`hello`'' ''src/app.tsx?v=1'' = Null"
proof -
  note gate = transform_gate [where pks = "{''items''}" and bp = "()"]
  have app: "has_source_extension ''src/app.tsx?v=1''"
    using gate [where ident = "''src/app.tsx?v=1''"] rx_test_app by blast
  have css: "\<not> has_source_extension ''src/style.css''"
    using gate [where ident = "''src/style.css''"] rx_test_css by blast
  from app have "transform True {''items''} () ''t`hello`'' ''src/app.tsx?v=1'' =
      TransformLocalize ''src/app.tsx?v=1'' ''t`hello`'' {''items''} ()"
    using gate [where ident = "''src/app.tsx?v=1''" and si = True and code = "''t`hello`''"]
    by blast
  moreover from css have "transform True {''items''} () ''a{}'' ''src/style.css'' = Null"
    using gate [where ident = "''src/style.css''" and si = True and code = "''a{}''"]
    by blast
  moreover have "transform False {''items''} () ''t`hello`'' ''src/app.tsx?v=1'' = Null"
    using gate [where ident = "''src/app.tsx?v=1''" and si = False and code = "''t`hello`''"]
    by blast
  ultimately show ?thesis using app css by blast
qed

text \<open>
  Claim C10: the build start hook never writes to a locale file that exists. Whenever the
  hook returns or throws, every file of the directory has the contents it had before; a
  path whose contents differ had no file, is the file of a configured locale, and holds
  the default record of that locale.
\<close>

theorem buildStart_keeps_existing_files:
  assumes "buildStart dir ls ns d = Some (d', r)"
  shows "(\<forall>p f. d p = Some f \<longrightarrow> d' p = Some f) \<and>
         (\<forall>p. d' p \<noteq> d p \<longrightarrow>
            d p = None \<and>
            (\<exists>l \<in> set ls. p = localeFile dir l \<and>
               d' p = Some (Json (JObj (default_record l (locale_groups l))))))"
proof (intro conjI allI impI)
  fix p f
  assume "d p = Some f"
  with for_locales_disk [OF assms [unfolded buildStart_def], of p]
  show "d' p = Some f" by auto
next
  fix p
  assume "d' p \<noteq> d p"
  with for_locales_disk [OF assms [unfolded buildStart_def], of p]
  show "d p = None" by auto
next
  fix p
  assume "d' p \<noteq> d p"
  with for_locales_disk [OF assms [unfolded buildStart_def], of p]
  show "\<exists>l \<in> set ls. p = localeFile dir l \<and>
          d' p = Some (Json (JObj (default_record l (locale_groups l))))" by auto
qed

text \<open>The example directory: \<open>en.json\<close> stays without a name, which only the record in memory gets.\<close>

theorem buildStart_keeps_existing_files_witness:
  "\<exists>d' v. buildStart ''/i18n'' [''en'', ''nl'', ''fr_CA''] [] example_disk = Some (d', Inr v) \<and>
     d' ''/i18n/en.json'' = Some (Json example_en) \<and>
     d' ''/i18n/nl.json'' = Some (Json example_nl) \<and>
     d' ''/i18n/fr_CA.json'' \<noteq> example_disk ''/i18n/fr_CA.json'' \<and>
     example_disk ''/i18n/fr_CA.json'' = None \<and>
     map_of (localeNames v) ''en'' = Some (JStr ''en'')"
proof -
  note kept = buildStart_keeps_existing_files [OF example_build]
  from kept have keep: "\<And>p f. example_disk p = Some f \<Longrightarrow>
      (example_disk(''/i18n/fr_CA.json'' \<mapsto> Json example_fr_CA)) p = Some f"
    by blast
  have en: "(example_disk(''/i18n/fr_CA.json'' \<mapsto> Json example_fr_CA)) ''/i18n/en.json'' =
      Some (Json example_en)"
    by (rule keep) (simp add: example_disk_def)
  have nl: "(example_disk(''/i18n/fr_CA.json'' \<mapsto> Json example_fr_CA)) ''/i18n/nl.json'' =
      Some (Json example_nl)"
    by (rule keep) (simp add: example_disk_def)
  have changed: "(example_disk(''/i18n/fr_CA.json'' \<mapsto> Json example_fr_CA)) ''/i18n/fr_CA.json'' \<noteq>
      example_disk ''/i18n/fr_CA.json''"
    by (simp add: example_disk_def)
  with kept have new: "example_disk ''/i18n/fr_CA.json'' = None"
    by blast
  from en nl changed new show ?thesis
    using example_build by simp
qed

end
